theory Spec2Isabelle
  imports Main
begin

section \<open>Values read from the container\<close>

text \<open>
  \<open>json.load\<close> gives Python values: \<open>None\<close>, booleans, numbers, strings, lists and
  dicts. A dict keeps its keys distinct and in insertion order, so \<open>JObj\<close> holds an
  association list whose keys are distinct. Only integral numbers are represented.
\<close>

datatype json =
    JNull
  | JBool bool
  | JInt int
  | JStr string
  | JArr "json list"
  | JObj "(string \<times> json) list"

text \<open>
  The exceptions the module can see. \<open>MetaDBError\<close> carries the payload
  \<open>{"error_code": ..., "msg": ...}\<close>; the others carry the text \<open>str(e)\<close> gives.
\<close>

datatype exc =
    MetaDBError nat string
  | ValueError string
  | TypeError string
  | KeyError string
  | IntegrityError string
  | ValidationError string
  | OtherError string

fun truthy :: "json \<Rightarrow> bool" where
  "truthy JNull = False"
| "truthy (JBool b) = b"
| "truthy (JInt n) = (n \<noteq> 0)"
| "truthy (JStr s) = (s \<noteq> [])"
| "truthy (JArr xs) = (xs \<noteq> [])"
| "truthy (JObj kvs) = (kvs \<noteq> [])"

fun is_sub :: "string \<Rightarrow> string \<Rightarrow> bool" where
  "is_sub p [] = (p = [])"
| "is_sub p (c # cs) = (take (length p) (c # cs) = p \<or> is_sub p cs)"

fun py_in :: "string \<Rightarrow> json \<Rightarrow> exc + bool" where
  "py_in k (JObj kvs) = Inr (k \<in> set (map fst kvs))"
| "py_in k (JArr xs) = Inr (JStr k \<in> set xs)"
| "py_in k (JStr s) = Inr (is_sub k s)"
| "py_in k _ = Inl (TypeError ''argument is not iterable'')"

fun py_getitem :: "json \<Rightarrow> string \<Rightarrow> exc + json" where
  "py_getitem (JObj kvs) k =
     (case map_of kvs k of None \<Rightarrow> Inl (KeyError k) | Some v \<Rightarrow> Inr v)"
| "py_getitem (JArr xs) k = Inl (TypeError ''list indices must be integers or slices, not str'')"
| "py_getitem (JStr s) k = Inl (TypeError ''string indices must be integers'')"
| "py_getitem _ k = Inl (TypeError ''object is not subscriptable'')"

section \<open>Version strings\<close>

text \<open>
  \<open>packaging.version\<close> is modelled for release-only versions, the dotted decimal
  strings such as \<open>0.3\<close> and \<open>0.5.1\<close>: a version is its list of release numbers.
  Epochs, pre-, post-, dev- and local segments are outside the model, which reports such a
  string as invalid.
\<close>

type_synonym version = "nat list"

definition digit_val :: "char \<Rightarrow> nat option" where
  "digit_val =
     map_of [(CHR ''0'', 0), (CHR ''1'', 1), (CHR ''2'', 2), (CHR ''3'', 3), (CHR ''4'', 4),
             (CHR ''5'', 5), (CHR ''6'', 6), (CHR ''7'', 7), (CHR ''8'', 8), (CHR ''9'', 9)]"

fun digits_val :: "nat \<Rightarrow> string \<Rightarrow> nat option" where
  "digits_val acc [] = Some acc"
| "digits_val acc (c # cs) =
     (case digit_val c of None \<Rightarrow> None | Some d \<Rightarrow> digits_val (10 * acc + d) cs)"

definition parse_nat :: "string \<Rightarrow> nat option" where
  "parse_nat s = (if s = [] then None else digits_val 0 s)"

fun split_dots :: "string \<Rightarrow> string \<Rightarrow> string list" where
  "split_dots cur [] = [rev cur]"
| "split_dots cur (c # cs) =
     (if c = CHR ''.'' then rev cur # split_dots [] cs else split_dots (c # cur) cs)"

fun all_some :: "'a option list \<Rightarrow> 'a list option" where
  "all_some [] = Some []"
| "all_some (None # xs) = None"
| "all_some (Some x # xs) = (case all_some xs of None \<Rightarrow> None | Some ys \<Rightarrow> Some (x # ys))"

definition version_parse_str :: "string \<Rightarrow> exc + version" where
  "version_parse_str s =
     (case all_some (map parse_nat (split_dots [] s)) of
        None \<Rightarrow> Inl (ValueError (''Invalid version: '' @ s))
      | Some v \<Rightarrow> Inr v)"

fun version_parse :: "json \<Rightarrow> exc + version" where
  "version_parse (JStr s) = version_parse_str s"
| "version_parse _ = Inl (TypeError ''expected string or bytes-like object'')"

definition strip_zeros :: "nat list \<Rightarrow> nat list" where
  "strip_zeros v = rev (dropWhile (\<lambda>n. n = 0) (rev v))"

fun lex_less :: "nat list \<Rightarrow> nat list \<Rightarrow> bool" where
  "lex_less [] [] = False"
| "lex_less [] (y # ys) = True"
| "lex_less (x # xs) [] = False"
| "lex_less (x # xs) (y # ys) = (x < y \<or> (x = y \<and> lex_less xs ys))"

definition version_less :: "version \<Rightarrow> version \<Rightarrow> bool" where
  "version_less a b = lex_less (strip_zeros a) (strip_zeros b)"

definition digit_char :: "nat \<Rightarrow> char" where
  "digit_char d = ''0123456789'' ! (d mod 10)"

fun str_nat :: "nat \<Rightarrow> string" where
  "str_nat n = (if n < 10 then [digit_char n] else str_nat (n div 10) @ [digit_char (n mod 10)])"

declare str_nat.simps [simp del]

fun join_dots :: "string list \<Rightarrow> string" where
  "join_dots [] = []"
| "join_dots [s] = s"
| "join_dots (s # t # ss) = s @ ''.'' @ join_dots (t # ss)"

definition version_str :: "version \<Rightarrow> string" where
  "version_str v = join_dots (map str_nat v)"

text \<open>Python compares strings by code point, position by position.\<close>

fun str_less :: "string \<Rightarrow> string \<Rightarrow> bool" where
  "str_less [] [] = False"
| "str_less [] (y # ys) = True"
| "str_less (x # xs) [] = False"
| "str_less (x # xs) (y # ys) =
     ((of_char x :: nat) < of_char y \<or> (x = y \<and> str_less xs ys))"

text \<open>\<open>max\<close> and \<open>min\<close> of a list keep the first extreme element and raise on an empty list.\<close>

fun max_from :: "string \<Rightarrow> string list \<Rightarrow> string" where
  "max_from m [] = m"
| "max_from m (x # xs) = max_from (if str_less m x then x else m) xs"

definition py_max :: "string list \<Rightarrow> exc + string" where
  "py_max xs =
     (case xs of [] \<Rightarrow> Inl (ValueError ''max() arg is an empty sequence'')
      | x # ys \<Rightarrow> Inr (max_from x ys))"

fun min_from :: "version \<Rightarrow> version list \<Rightarrow> version" where
  "min_from m [] = m"
| "min_from m (x # xs) = min_from (if version_less x m then x else m) xs"

section \<open>The constraint tables\<close>

text \<open>
  A table entry holds a reference to the coercer and the required flag. The dicts of the
  module are objects: \<open>_constraints_0_3\<close> maps a section name to the address of the
  section's dict, and the heap maps an address to the dict stored there.
\<close>

datatype coercer =
    C_str
  | C_bool
  | C_datetime_parser
  | C_replaces_parser
  | C_containerType_parser
  | C_used_software_parser
  | C_keyword_parser

type_synonym fieldspec = "(string \<times> coercer \<times> bool) list"
type_synonym addr = nat
type_synonym heap = "addr \<Rightarrow> fieldspec option"
type_synonym constraint_set = "(string \<times> addr) list"

fun dict_set :: "'k \<Rightarrow> 'v \<Rightarrow> ('k \<times> 'v) list \<Rightarrow> ('k \<times> 'v) list" where
  "dict_set k v [] = [(k, v)]"
| "dict_set k v ((k', v') # kvs) =
     (if k' = k then (k, v) # kvs else (k', v') # dict_set k v kvs)"

definition dict_update :: "('k \<times> 'v) list \<Rightarrow> ('k \<times> 'v) list \<Rightarrow> ('k \<times> 'v) list" where
  "dict_update d e = fold (\<lambda>(k, v). dict_set k v) e d"

definition content_0_3 :: fieldspec where
  "content_0_3 =
     [(''uuid'', C_str, True),
      (''replaces'', C_replaces_parser, False),
      (''containerType'', C_containerType_parser, True),
      (''created'', C_datetime_parser, True),
      (''modified'', C_datetime_parser, True),
      (''static'', C_bool, True),
      (''complete'', C_bool, True),
      (''hash'', C_str, False),
      (''usedSoftware'', C_used_software_parser, False),
      (''modelVersion'', C_str, True)]"

definition meta_0_3 :: fieldspec where
  "meta_0_3 =
     [(''author'', C_str, True),
      (''email'', C_str, True),
      (''comment'', C_str, False),
      (''title'', C_str, True),
      (''keywords'', C_keyword_parser, False),
      (''description'', C_str, False)]"

text \<open>The heap after the dict display of \<open>_constraints_0_3\<close> has been evaluated.\<close>

definition heap_0 :: heap where
  "heap_0 = (\<lambda>a. if a = 0 then Some content_0_3 else if a = 1 then Some meta_0_3 else None)"

definition constraints_0_3 :: constraint_set where
  "constraints_0_3 = [(''content'', 0), (''meta'', 1)]"

text \<open>\<open>dict.copy()\<close> copies the outer dict only: the values are the same addresses.\<close>

definition dict_copy :: "constraint_set \<Rightarrow> constraint_set" where
  "dict_copy d = d"

definition constraints_0_5_1 :: constraint_set where
  "constraints_0_5_1 = dict_copy constraints_0_3"

text \<open>\<open>_constraints_0_5_1["meta"].update({...})\<close> changes the dict at that address.\<close>

definition heap_update_at :: "heap \<Rightarrow> addr option \<Rightarrow> fieldspec \<Rightarrow> heap" where
  "heap_update_at h a e =
     (case a of None \<Rightarrow> h
      | Some i \<Rightarrow> (case h i of None \<Rightarrow> h | Some d \<Rightarrow> h(i \<mapsto> dict_update d e)))"

definition module_heap :: heap where
  "module_heap =
     heap_update_at heap_0 (map_of constraints_0_5_1 ''meta'')
       [(''timestamp'', C_str, False),
        (''doi'', C_str, False),
        (''license'', C_str, False)]"

definition constraints_table :: "(string \<times> constraint_set) list" where
  "constraints_table = [(''0.3'', constraints_0_3), (''0.5.1'', constraints_0_5_1)]"

definition key_version :: "string \<Rightarrow> version" where
  "key_version k = (case version_parse_str k of Inr v \<Rightarrow> v | Inl e \<Rightarrow> [])"

definition MIN_SUPPORTED_VERSION :: version where
  "MIN_SUPPORTED_VERSION =
     (case map (\<lambda>(k, c). key_version k) constraints_table of
        [] \<Rightarrow> [] | v # vs \<Rightarrow> min_from v vs)"

section \<open>The libraries and the upload\<close>

text \<open>
  What the module takes from the standard library, from Django and from the settings is a
  parameter of the model: the two \<open>datetime\<close> parsers (\<open>None\<close> is their
  \<open>ValueError\<close>), \<open>str()\<close> of a value that is not a string, the conversion of a
  value to the canonical text of a UUID by a \<open>UUIDField\<close> (\<open>None\<close> is its
  \<open>ValidationError\<close>), the constraints the database checks when a row of
  \<open>DataSet\<close> is written (\<open>Some m\<close> is its \<open>IntegrityError\<close>),
  \<open>MEDIA_ROOT\<close> and \<open>os.path.abspath\<close>.
\<close>

record datetime =
  dt_clock :: "nat list"
  tzinfo :: "int option"

text \<open>
  The uploaded file: its size, the MIME type \<open>magic\<close> sniffs from its first bytes, the
  members \<open>zipfile\<close> finds in it (\<open>None\<close> when it cannot be opened as an archive) and
  its bytes. A member carries what \<open>json.load\<close> gives for it (\<open>None\<close> when its text
  is not JSON).
\<close>

record member =
  m_name :: string
  m_size :: nat
  m_json :: "json option"

record upload =
  up_size :: nat
  up_mime :: string
  up_zip :: "member list option"
  up_chunks :: "nat list"

section \<open>The stored records\<close>

record file_obj =
  f_name :: string
  f_size :: nat
  f_content :: "json option"

datatype pyval =
    VStr string
  | VBool bool
  | VInt nat
  | VUser string
  | VDatetime datetime
  | VDataSet string
  | VDataSetBase string
  | VContainerType json
  | VSoftware "json list"
  | VKeywords "string list"
  | VFiles "file_obj list"

text \<open>
  \<open>DataSet\<close> extends \<open>DataSetBase\<close>: a full record has a row in both tables, a
  placeholder has a row of \<open>DataSetBase\<close> only. Tables are lists of rows, so that
  the number of rows of an identifier is something the operations have to get right.
  \<open>ds_key\<close> is the canonical identifier of the row, \<open>ds_id\<close> what \<open>str(obj.id)\<close>
  gives, and \<open>ds_fields\<close> the attributes of the object.
\<close>

record dataset =
  ds_key :: string
  ds_id :: string
  ds_fields :: "(string \<times> pyval) list"

record pylib =
  fromisoformat :: "string \<Rightarrow> datetime option"
  strptime :: "string \<Rightarrow> string \<Rightarrow> datetime option"
  py_str :: "json \<Rightarrow> string"
  to_uuid :: "json \<Rightarrow> string option"
  db_constraint :: "string \<Rightarrow> (string \<times> pyval) list \<Rightarrow> string option"
  media_root :: string
  abspath :: "string \<Rightarrow> string"

record db =
  dataset_base :: "string list"
  dataset :: "dataset list"
  files :: "file_obj list"
  keyword_rows :: "string list"
  container_types :: "json list"

record world =
  w_db :: db
  w_storage :: "(string \<times> nat list) list"

definition count_base :: "db \<Rightarrow> string \<Rightarrow> nat" where
  "count_base d u = length (filter (\<lambda>i. i = u) (dataset_base d))"

definition count_full :: "db \<Rightarrow> string \<Rightarrow> nat" where
  "count_full d u = length (filter (\<lambda>r. ds_key r = u) (dataset d))"

definition is_placeholder :: "db \<Rightarrow> string \<Rightarrow> bool" where
  "is_placeholder d u = (0 < count_base d u \<and> count_full d u = 0)"

definition is_full :: "db \<Rightarrow> string \<Rightarrow> bool" where
  "is_full d u = (0 < count_full d u)"

text \<open>The primary key and the parent link of the two tables.\<close>

definition wf_db :: "db \<Rightarrow> bool" where
  "wf_db d =
     (distinct (dataset_base d) \<and> distinct (map ds_key (dataset d))
      \<and> set (map ds_key (dataset d)) \<subseteq> set (dataset_base d))"

section \<open>Coercers\<close>

definition datetime_parser :: "pylib \<Rightarrow> string \<Rightarrow> exc + datetime" where
  "datetime_parser lib s =
     (case fromisoformat lib s of
        Some dt \<Rightarrow> Inr dt
      | None \<Rightarrow>
          (case strptime lib s ''%Y-%m-%dT%H:%M:%S+%z'' of
             Some dt \<Rightarrow> Inr (dt\<lparr>tzinfo := Some 0\<rparr>)
           | None \<Rightarrow>
               (case strptime lib s ''%Y-%m-%d %H:%M:%S %Z'' of
                  Some dt \<Rightarrow> Inr (dt\<lparr>tzinfo := Some 0\<rparr>)
                | None \<Rightarrow> Inl (ValueError (''time data does not match format: '' @ s)))))"

fun py_iter :: "json \<Rightarrow> exc + json list" where
  "py_iter (JArr xs) = Inr xs"
| "py_iter (JStr s) = Inr (map (\<lambda>c. JStr [c]) s)"
| "py_iter (JObj kvs) = Inr (map (\<lambda>kv. JStr (fst kv)) kvs)"
| "py_iter _ = Inl (TypeError ''object is not iterable'')"

definition py_text :: "pylib \<Rightarrow> json \<Rightarrow> string" where
  "py_text lib j = (case j of JStr s \<Rightarrow> s | _ \<Rightarrow> py_str lib j)"

text \<open>
  Modelled from the spec: \<open>Software.to_Software\<close> and \<open>ContainerType.to_ContainerType\<close>
  (the module \<open>models\<close> is not among the sources). The first makes one entity from one
  raw entry; the second makes the entity of a raw dictionary and reuses an identical one
  that is already stored.
\<close>

definition to_Software :: "json \<Rightarrow> json" where
  "to_Software entry = entry"

definition to_ContainerType :: "json \<Rightarrow> db \<Rightarrow> pyval \<times> db" where
  "to_ContainerType j d =
     (if j \<in> set (container_types d) then (VContainerType j, d)
      else (VContainerType j, d\<lparr>container_types := container_types d @ [j]\<rparr>))"

definition used_software_parser :: "json \<Rightarrow> exc + pyval" where
  "used_software_parser v =
     (case py_iter v of Inl e \<Rightarrow> Inl e | Inr es \<Rightarrow> Inr (VSoftware (map to_Software es)))"

definition multiple :: exc where
  "multiple = OtherError ''get() returned more than one object''"

text \<open>\<open>DataSetBase.objects.get_or_create(id=u)\<close>.\<close>

definition base_get_or_create :: "string \<Rightarrow> db \<Rightarrow> exc + db" where
  "base_get_or_create u d =
     (case filter (\<lambda>i. i = u) (dataset_base d) of
        [] \<Rightarrow> Inr (d\<lparr>dataset_base := dataset_base d @ [u]\<rparr>)
      | [i] \<Rightarrow> Inr d
      | _ \<Rightarrow> Inl multiple)"

definition replaces_parser :: "pylib \<Rightarrow> json \<Rightarrow> db \<Rightarrow> exc + pyval \<times> db" where
  "replaces_parser lib v d =
     (case to_uuid lib v of
        None \<Rightarrow> Inl (ValidationError ''is not a valid UUID.'')
      | Some u \<Rightarrow>
          (case filter (\<lambda>r. ds_key r = u) (dataset d) of
             [r] \<Rightarrow> Inr (VDataSet u, d)
           | [] \<Rightarrow>
               (case base_get_or_create u d of
                  Inl e \<Rightarrow> Inl e
                | Inr d' \<Rightarrow> Inr (VDataSetBase u, d'))
           | _ \<Rightarrow> Inl multiple))"

text \<open>\<open>Keyword.objects.get_or_create(name=entry)\<close>, one entry after the other.\<close>

fun keyword_loop :: "string list \<Rightarrow> db \<Rightarrow> exc + db" where
  "keyword_loop [] d = Inr d"
| "keyword_loop (n # ns) d =
     (case filter (\<lambda>k. k = n) (keyword_rows d) of
        [] \<Rightarrow> keyword_loop ns (d\<lparr>keyword_rows := keyword_rows d @ [n]\<rparr>)
      | [k] \<Rightarrow> keyword_loop ns d
      | _ \<Rightarrow> Inl multiple)"

definition keyword_parser :: "pylib \<Rightarrow> json \<Rightarrow> db \<Rightarrow> exc + pyval \<times> db" where
  "keyword_parser lib v d =
     (case py_iter v of
        Inl e \<Rightarrow> Inl e
      | Inr es \<Rightarrow>
          (case keyword_loop (map (py_text lib) es) d of
             Inl e \<Rightarrow> Inl e
           | Inr d' \<Rightarrow> Inr (VKeywords (map (py_text lib) es), d')))"

fun apply_coercer :: "pylib \<Rightarrow> coercer \<Rightarrow> json \<Rightarrow> db \<Rightarrow> exc + pyval \<times> db" where
  "apply_coercer lib C_str v d = Inr (VStr (py_text lib v), d)"
| "apply_coercer lib C_bool v d = Inr (VBool (truthy v), d)"
| "apply_coercer lib C_datetime_parser v d =
     (case v of
        JStr s \<Rightarrow>
          (case datetime_parser lib s of Inl e \<Rightarrow> Inl e | Inr dt \<Rightarrow> Inr (VDatetime dt, d))
      | _ \<Rightarrow> Inl (TypeError ''fromisoformat: argument must be str''))"
| "apply_coercer lib C_replaces_parser v d = replaces_parser lib v d"
| "apply_coercer lib C_containerType_parser v d = Inr (to_ContainerType v d)"
| "apply_coercer lib C_used_software_parser v d =
     (case used_software_parser v of Inl e \<Rightarrow> Inl e | Inr x \<Rightarrow> Inr (x, d))"
| "apply_coercer lib C_keyword_parser v d = keyword_parser lib v d"

section \<open>Parser objects\<close>

text \<open>An exception ends the computation: \<open>ebind\<close> runs the next step on a result only.\<close>

fun ebind :: "exc + 'a \<Rightarrow> ('a \<Rightarrow> exc + 'b) \<Rightarrow> exc + 'b" where
  "ebind (Inl e) f = Inl e"
| "ebind (Inr x) f = f x"

datatype parser_class = ZipContainerParser | Hdf5ContainerParser

datatype meth = M_read_content_json | M_read_meta_json | M_read_filelist

record parser =
  p_class :: parser_class
  p_filename :: "upload option"
  model_version :: json
  p_content :: "json option"
  p_meta :: "json option"
  p_files :: "file_obj list option"

text \<open>
  \<open>BaseParser\<close> is an \<open>ABC\<close> with three abstract methods. A class can be instantiated
  only when it overrides each of them; otherwise the call of the class raises
  \<open>TypeError\<close>. \<open>__init__\<close> sets \<open>model_version\<close> to \<open>None\<close>.
\<close>

definition abstract_methods :: "meth list" where
  "abstract_methods = [M_read_content_json, M_read_meta_json, M_read_filelist]"

fun overridden :: "parser_class \<Rightarrow> meth list" where
  "overridden ZipContainerParser = [M_read_content_json, M_read_meta_json, M_read_filelist]"
| "overridden Hdf5ContainerParser = [M_read_content_json, M_read_meta_json]"

definition new_parser :: "parser_class \<Rightarrow> exc + parser" where
  "new_parser cls =
     (case filter (\<lambda>m. m \<notin> set (overridden cls)) abstract_methods of
        [] \<Rightarrow> Inr \<lparr>p_class = cls, p_filename = None, model_version = JNull,
                  p_content = None, p_meta = None, p_files = None\<rparr>
      | _ \<Rightarrow> Inl (TypeError ''Can't instantiate abstract class''))"

definition attribute_error :: exc where
  "attribute_error = OtherError ''object has no attribute''"

definition zip_open :: "upload option \<Rightarrow> exc + member list" where
  "zip_open f =
     (case f of
        None \<Rightarrow> Inl attribute_error
      | Some up \<Rightarrow>
          (case up_zip up of
             None \<Rightarrow> Inl (OtherError ''File is not a zip file'')
           | Some ms \<Rightarrow> Inr ms))"

definition zip_getinfo :: "member list \<Rightarrow> string \<Rightarrow> exc + member" where
  "zip_getinfo ms n =
     (case filter (\<lambda>m. m_name m = n) ms of
        [] \<Rightarrow> Inl (KeyError (''There is no item named '' @ n @ '' in the archive''))
      | x # xs \<Rightarrow> Inr (last (x # xs)))"

definition json_load :: "member \<Rightarrow> exc + json" where
  "json_load m =
     (case m_json m of None \<Rightarrow> Inl (ValueError ''Expecting value'') | Some j \<Rightarrow> Inr j)"

definition hdf5_unsupported :: exc where
  "hdf5_unsupported =
     MetaDBError 501 (''The server does not support to parse hdf5'' @ '' files yet.'')"

definition read_json_member :: "parser \<Rightarrow> string \<Rightarrow> exc + json" where
  "read_json_member p n =
     ebind (zip_open (p_filename p)) (\<lambda>ms. ebind (zip_getinfo ms n) json_load)"

definition read_content_json :: "parser \<Rightarrow> exc + parser" where
  "read_content_json p =
     (case p_class p of
        Hdf5ContainerParser \<Rightarrow> Inl hdf5_unsupported
      | ZipContainerParser \<Rightarrow>
          ebind (read_json_member p ''content.json'') (\<lambda>j. Inr (p\<lparr>p_content := Some j\<rparr>)))"

definition read_meta_json :: "parser \<Rightarrow> exc + parser" where
  "read_meta_json p =
     (case p_class p of
        Hdf5ContainerParser \<Rightarrow> Inl hdf5_unsupported
      | ZipContainerParser \<Rightarrow>
          ebind (read_json_member p ''meta.json'') (\<lambda>j. Inr (p\<lparr>p_meta := Some j\<rparr>)))"

text \<open>\<open>File.objects.get_or_create\<close>, with the content for a JSON member and without.\<close>

definition file_get_or_create :: "string \<Rightarrow> nat \<Rightarrow> json option \<Rightarrow> db \<Rightarrow> exc + file_obj \<times> db" where
  "file_get_or_create n sz c d =
     (case filter (\<lambda>f. f_name f = n \<and> f_size f = sz \<and> (c = None \<or> f_content f = c)) (files d) of
        [] \<Rightarrow>
          (let f = \<lparr>f_name = n, f_size = sz, f_content = c\<rparr>
           in Inr (f, d\<lparr>files := files d @ [f]\<rparr>))
      | [f] \<Rightarrow> Inr (f, d)
      | _ \<Rightarrow> Inl multiple)"

definition ends_with :: "string \<Rightarrow> string \<Rightarrow> bool" where
  "ends_with s suf = (length suf \<le> length s \<and> drop (length s - length suf) s = suf)"

definition starts_with :: "string \<Rightarrow> string \<Rightarrow> bool" where
  "starts_with s pre = (take (length pre) s = pre)"

fun filelist_loop :: "member list \<Rightarrow> string list \<Rightarrow> file_obj list \<times> db \<Rightarrow> exc + file_obj list \<times> db" where
  "filelist_loop ms [] (fs, d) = Inr (fs, d)"
| "filelist_loop ms (n # ns) (fs, d) =
     ebind (zip_getinfo ms n) (\<lambda>info.
     ebind (if ends_with n ''.json''
            then ebind (json_load info) (\<lambda>data. file_get_or_create n (m_size info) (Some data) d)
            else file_get_or_create n (m_size info) None d) (\<lambda>(f, d').
     filelist_loop ms ns (fs @ [f], d')))"

definition read_filelist :: "parser \<Rightarrow> db \<Rightarrow> exc + parser \<times> db" where
  "read_filelist p d =
     (case p_class p of
        Hdf5ContainerParser \<Rightarrow> Inr (p, d)
      | ZipContainerParser \<Rightarrow>
          ebind (zip_open (p_filename p)) (\<lambda>ms.
          ebind (filelist_loop ms (map m_name ms) ([], d)) (\<lambda>(fs, d').
          Inr (p\<lparr>p_files := Some fs\<rparr>, d'))))"

section \<open>The constraint resolver\<close>

definition attr :: "'a option \<Rightarrow> exc + 'a" where
  "attr x = (case x of None \<Rightarrow> Inl attribute_error | Some v \<Rightarrow> Inr v)"

definition read_model_version :: "parser \<Rightarrow> exc + parser" where
  "read_model_version p =
     ebind (attr (p_content p)) (\<lambda>c.
     ebind (py_in ''modelVersion'' c) (\<lambda>present.
     ebind (if \<not> present then read_content_json p else Inr p) (\<lambda>p'.
     ebind (attr (p_content p')) (\<lambda>c'.
     ebind (py_getitem c' ''modelVersion'') (\<lambda>mv.
     Inr (p'\<lparr>model_version := mv\<rparr>))))))"

definition too_old_msg :: "string \<Rightarrow> string" where
  "too_old_msg mv =
     ''You tried to upload a dataset '' @ ''complying scidatacontainer model '' @
     ''version '' @ mv @ '' but the server requires a minimum '' @
     ''model version of '' @ version_str MIN_SUPPORTED_VERSION"

definition str_concat :: "string \<Rightarrow> json \<Rightarrow> exc + string" where
  "str_concat s j =
     (case j of JStr t \<Rightarrow> Inr (s @ t)
      | _ \<Rightarrow> Inl (TypeError ''can only concatenate str to str''))"

definition constraints_prop :: "parser \<Rightarrow> exc + constraint_set \<times> parser" where
  "constraints_prop p =
     ebind (if \<not> truthy (model_version p) then read_model_version p else Inr p) (\<lambda>p'.
     ebind (version_parse (model_version p')) (\<lambda>v.
     if version_less v MIN_SUPPORTED_VERSION
     then (case model_version p' of
             JStr mv \<Rightarrow> Inl (MetaDBError 400 (too_old_msg mv))
           | _ \<Rightarrow> Inl (TypeError ''can only concatenate str to str''))
     else
       ebind (py_max (filter (\<lambda>k. version_less (key_version k) v) (map fst constraints_table))) (\<lambda>key.
       (case map_of constraints_table key of
          None \<Rightarrow> Inl (KeyError key)
        | Some cs \<Rightarrow> Inr (cs, p')))))"

section \<open>The field validator\<close>

definition is_upper :: "char \<Rightarrow> bool" where
  "is_upper c = (65 \<le> (of_char c :: nat) \<and> (of_char c :: nat) \<le> 90)"

definition to_lower :: "char \<Rightarrow> char" where
  "to_lower c = (if is_upper c then char_of ((of_char c :: nat) + 32) else c)"

fun snake_tail :: "string \<Rightarrow> string" where
  "snake_tail [] = []"
| "snake_tail (c # cs) =
     (if is_upper c then CHR ''_'' # to_lower c # snake_tail cs else to_lower c # snake_tail cs)"

definition snake_case :: "string \<Rightarrow> string" where
  "snake_case key = (case key of [] \<Rightarrow> [] | c # cs \<Rightarrow> to_lower c # snake_tail cs)"

definition missing_msg :: "string \<Rightarrow> string \<Rightarrow> string" where
  "missing_msg key filename =
     ''Attribute '' @ [CHR 0x27] @ key @ [CHR 0x27] @ '' required in '' @ filename @ ''.json.''"

definition convert_msg :: "string \<Rightarrow> string" where
  "convert_msg raw =
     ''Failed to convert '' @ [CHR 0x27] @ raw @ [CHR 0x27] @ '' using '' @
     ''the default parser. Make '' @ ''sure it has the right type.''"

text \<open>
  The handler of \<open>ValueError\<close> builds its message by concatenating the raw value to a
  string, which raises \<open>TypeError\<close> when the raw value is not a string.
\<close>

definition on_value_error :: "json \<Rightarrow> exc" where
  "on_value_error raw =
     (case raw of JStr s \<Rightarrow> MetaDBError 400 (convert_msg s)
      | _ \<Rightarrow> TypeError ''can only concatenate str to str'')"

definition convert :: "pylib \<Rightarrow> coercer \<Rightarrow> json \<Rightarrow> db \<Rightarrow> exc + pyval \<times> db" where
  "convert lib t raw d =
     (case apply_coercer lib t raw d of
        Inl (ValueError m) \<Rightarrow> Inl (on_value_error raw)
      | Inl e \<Rightarrow> Inl e
      | Inr r \<Rightarrow> Inr r)"

text \<open>One turn of the loop over \<open>c.items()\<close>.\<close>

definition validate_field ::
  "pylib \<Rightarrow> string \<Rightarrow> json \<Rightarrow> string \<times> coercer \<times> bool \<Rightarrow>
   (string \<times> pyval) list \<times> db \<Rightarrow> exc + (string \<times> pyval) list \<times> db" where
  "validate_field lib filename in_dict item st =
     (case item of (key, t, required) \<Rightarrow>
     (case st of (d, dbs) \<Rightarrow>
       ebind (if required then py_in key in_dict else Inr True) (\<lambda>present.
       if required \<and> \<not> present then Inl (MetaDBError 400 (missing_msg key filename))
       else
         ebind (py_in key in_dict) (\<lambda>present'.
         if present' then
           ebind (py_getitem in_dict key) (\<lambda>raw.
           if truthy raw \<and> raw \<noteq> JArr [] then
             ebind (convert lib t raw dbs) (\<lambda>(v, dbs').
             Inr (dict_set (snake_case key) v d, dbs'))
           else Inr (d, dbs))
         else Inr (d, dbs)))))"

fun validate_loop ::
  "pylib \<Rightarrow> string \<Rightarrow> json \<Rightarrow> fieldspec \<Rightarrow>
   (string \<times> pyval) list \<times> db \<Rightarrow> exc + (string \<times> pyval) list \<times> db" where
  "validate_loop lib filename in_dict [] st = Inr st"
| "validate_loop lib filename in_dict (item # c) st =
     ebind (validate_field lib filename in_dict item st)
       (validate_loop lib filename in_dict c)"

definition section_of :: "constraint_set \<Rightarrow> string \<Rightarrow> exc + fieldspec" where
  "section_of cs filename =
     (case map_of cs filename of
        None \<Rightarrow> Inl (KeyError filename)
      | Some a \<Rightarrow> (case module_heap a of None \<Rightarrow> Inl (KeyError filename) | Some c \<Rightarrow> Inr c))"

definition parse_validate ::
  "pylib \<Rightarrow> parser \<Rightarrow> string \<Rightarrow> json \<Rightarrow> db \<Rightarrow>
   exc + (string \<times> pyval) list \<times> parser \<times> db" where
  "parse_validate lib p filename in_dict dbs =
     ebind (constraints_prop p) (\<lambda>(cs, p').
     ebind (section_of cs filename) (\<lambda>c.
     ebind (validate_loop lib filename in_dict c ([], dbs)) (\<lambda>(d, dbs').
     Inr (d, p', dbs'))))"

section \<open>Storing the record\<close>

text \<open>
  \<open>save()\<close> of a \<open>DataSet\<close> with its key set writes the parent row and the child
  row, each updated where a row of that key exists and inserted otherwise.
\<close>

definition save_dataset :: "pylib \<Rightarrow> dataset \<Rightarrow> db \<Rightarrow> exc + db" where
  "save_dataset lib obj d =
     (case db_constraint lib (ds_key obj) (ds_fields obj) of
        Some m \<Rightarrow> Inl (IntegrityError m)
      | None \<Rightarrow>
          (let row = obj\<lparr>ds_id := ds_key obj\<rparr>
           in Inr (d\<lparr>dataset_base :=
                       (if ds_key obj \<in> set (dataset_base d) then dataset_base d
                        else dataset_base d @ [ds_key obj]),
                     dataset :=
                       (if ds_key obj \<in> set (map ds_key (dataset d))
                        then map (\<lambda>r. if ds_key r = ds_key obj then row else r) (dataset d)
                        else dataset d @ [row])\<rparr>)))"

text \<open>
  Modelled from the spec: \<open>DataSet.update_attributes\<close> (the module \<open>models\<close> is not
  among the sources). It merges the validated mapping field by field into the record,
  saves the record and returns it.
\<close>

definition update_attributes ::
  "pylib \<Rightarrow> dataset \<Rightarrow> (string \<times> pyval) list \<Rightarrow> string \<Rightarrow> db \<Rightarrow> exc + dataset \<times> db" where
  "update_attributes lib obj d user dbs =
     (let obj' = obj\<lparr>ds_fields := dict_update (ds_fields obj) d\<rparr>
      in ebind (save_dataset lib obj' dbs) (\<lambda>dbs'. Inr (obj', dbs')))"

text \<open>
  Modelled from the spec: \<open>parse_test_data\<close> (the module \<open>test_utils\<close> is not among
  the sources). It produces no record and touches no table.
\<close>

definition parse_test_data :: "string \<Rightarrow> dataset option" where
  "parse_test_data uuid = None"

definition test_prefix :: string where
  "test_prefix = ''00000000-0000-0000-0000-00000000''"

definition does_not_exist :: exc where
  "does_not_exist = OtherError ''matching query does not exist.''"

definition dataset_get :: "string \<Rightarrow> db \<Rightarrow> exc + dataset" where
  "dataset_get u d =
     (case filter (\<lambda>r. ds_key r = u) (dataset d) of
        [] \<Rightarrow> Inl does_not_exist | [r] \<Rightarrow> Inr r | _ \<Rightarrow> Inl multiple)"

definition base_get :: "string \<Rightarrow> db \<Rightarrow> exc + string" where
  "base_get u d =
     (case filter (\<lambda>i. i = u) (dataset_base d) of
        [] \<Rightarrow> Inl does_not_exist | [i] \<Rightarrow> Inr i | _ \<Rightarrow> Inl multiple)"

text \<open>\<open>delete()\<close> of a \<open>DataSetBase\<close> removes the row and the child row that extends it.\<close>

definition base_delete :: "string \<Rightarrow> db \<Rightarrow> db" where
  "base_delete u d =
     d\<lparr>dataset_base := filter (\<lambda>i. i \<noteq> u) (dataset_base d),
       dataset := filter (\<lambda>r. ds_key r \<noteq> u) (dataset d)\<rparr>"

definition dict_del :: "'k \<Rightarrow> ('k \<times> 'v) list \<Rightarrow> ('k \<times> 'v) list" where
  "dict_del k d = filter (\<lambda>kv. fst kv \<noteq> k) d"

definition create_dataset ::
  "pylib \<Rightarrow> string \<Rightarrow> string \<Rightarrow> (string \<times> pyval) list \<Rightarrow> string \<Rightarrow> db \<Rightarrow>
   exc + dataset option \<times> db" where
  "create_dataset lib u uuid d user dbs =
     (let obj = \<lparr>ds_key = u, ds_id = uuid, ds_fields = []\<rparr>;
          obj1 = obj\<lparr>ds_fields := dict_set ''owner'' (VUser user) (ds_fields obj)\<rparr>;
          obj2 = obj1\<lparr>ds_fields := dict_set ''complete'' (VBool False) (ds_fields obj1)\<rparr>
      in ebind (update_attributes lib obj2 d user dbs) (\<lambda>(ob, dbs'). Inr (Some ob, dbs')))"

definition identity_branch ::
  "pylib \<Rightarrow> string \<Rightarrow> (string \<times> pyval) list \<Rightarrow> string \<Rightarrow> db \<Rightarrow> exc + dataset option \<times> db" where
  "identity_branch lib uuid d user dbs =
     (if starts_with uuid test_prefix then Inr (parse_test_data uuid, dbs)
      else
        (let d' = dict_del ''uuid'' d in
         case to_uuid lib (JStr uuid) of
           None \<Rightarrow> Inl (ValidationError ''is not a valid UUID.'')
         | Some u \<Rightarrow>
             if count_base dbs u \<noteq> 0 then
               if count_full dbs u \<noteq> 0 then
                 ebind (dataset_get u dbs) (\<lambda>obj.
                 ebind (update_attributes lib obj d' user dbs) (\<lambda>(ob, dbs'). Inr (Some ob, dbs')))
               else
                 ebind (base_get u dbs) (\<lambda>b.
                 create_dataset lib u uuid d' user (base_delete u dbs))
             else create_dataset lib u uuid d' user dbs))"

text \<open>
  \<open>parse\<close> in two parts. The first reads the sections and validates them into the
  mapping \<open>d\<close>; the second takes the identifier from \<open>d\<close> and reconciles the
  record.
\<close>

definition parse_sections ::
  "pylib \<Rightarrow> parser \<Rightarrow> upload \<Rightarrow> db \<Rightarrow> exc + (string \<times> pyval) list \<times> db" where
  "parse_sections lib p filename dbs =
     ebind (read_content_json (p\<lparr>p_filename := Some filename\<rparr>)) (\<lambda>p1.
     ebind (read_meta_json p1) (\<lambda>p2.
     ebind (read_filelist p2 dbs) (\<lambda>(p3, db1).
     ebind (attr (p_files p3)) (\<lambda>fs.
     ebind (attr (p_content p3)) (\<lambda>c.
     ebind (parse_validate lib p3 ''content'' c db1) (\<lambda>(dc, p4, db2).
     ebind (attr (p_meta p4)) (\<lambda>m.
     ebind (parse_validate lib p4 ''meta'' m db2) (\<lambda>(dm, p5, db3).
     Inr (dict_update
            (dict_update [(''size'', VInt (up_size filename)), (''content'', VFiles fs)] dc) dm,
          db3)))))))))"

definition parse ::
  "pylib \<Rightarrow> parser \<Rightarrow> upload \<Rightarrow> string \<Rightarrow> db \<Rightarrow> exc + dataset option \<times> db" where
  "parse lib p filename user dbs =
     ebind (parse_sections lib p filename dbs) (\<lambda>(d, db3).
     (case map_of d ''uuid'' of
        None \<Rightarrow> Inl (KeyError ''uuid'')
      | Some (VStr uuid) \<Rightarrow> identity_branch lib uuid d user db3
      | Some _ \<Rightarrow> Inl attribute_error))"

section \<open>The orchestrator\<close>

text \<open>
  Everything up to the record the parser returns, with the extension of the stored file.
  The calls of the two branches are kept apart as the source has them.
\<close>

definition unsupported_media :: exc where
  "unsupported_media = MetaDBError 415 ''File format has to be hdf5 or zip!''"

definition select_and_parse ::
  "pylib \<Rightarrow> upload \<Rightarrow> string \<Rightarrow> db \<Rightarrow> exc + (dataset \<times> string) option \<times> db" where
  "select_and_parse lib filename owner dbs =
     (if up_mime filename = ''application/zip'' then
        ebind (new_parser ZipContainerParser) (\<lambda>p.
        ebind (parse lib p filename owner dbs) (\<lambda>(obj, dbs').
        (case obj of
           None \<Rightarrow> Inr (None, dbs')
         | Some ob \<Rightarrow> Inr (Some (ob, ''.zdc''), dbs'))))
      else if up_mime filename = ''application/x-hdf'' then
        ebind (new_parser Hdf5ContainerParser) (\<lambda>p.
        ebind (parse lib p filename owner dbs) (\<lambda>(obj, dbs').
        (case obj of
           None \<Rightarrow> Inl attribute_error
         | Some ob \<Rightarrow> Inr (Some (ob, ''.hdf5''), dbs'))))
      else Inl unsupported_media)"

text \<open>
  The body of the \<open>with transaction.atomic()\<close> block. When the final \<open>save\<close>
  raises, it gives the world it reached: the database of that world is then dropped by
  the rollback, the written file is not. When the parser raises, nothing was written to
  the storage, and the rows the parser wrote are dropped with the rollback.
\<close>

definition ingest_body ::
  "pylib \<Rightarrow> upload \<Rightarrow> string \<Rightarrow> world \<Rightarrow> (exc + dataset option) \<times> world" where
  "ingest_body lib filename owner w =
     (case select_and_parse lib filename owner (w_db w) of
        Inl e \<Rightarrow> (Inl e, w)
      | Inr (None, dbs) \<Rightarrow> (Inr None, w\<lparr>w_db := dbs\<rparr>)
      | Inr (Some (obj, ext), dbs) \<Rightarrow>
          (let server_path = abspath lib (media_root lib @ ''/'' @ ds_id obj @ ext);
               w1 = w\<lparr>w_db := dbs,
                       w_storage := dict_set server_path (up_chunks filename) (w_storage w)\<rparr>;
               obj' = obj\<lparr>ds_fields := dict_set ''server_path'' (VStr server_path) (ds_fields obj)\<rparr>
           in case save_dataset lib obj' dbs of
                Inl e \<Rightarrow> (Inl e, w1)
              | Inr dbs' \<Rightarrow> (Inr (Some obj'), w1\<lparr>w_db := dbs'\<rparr>)))"

fun exc_text :: "exc \<Rightarrow> string" where
  "exc_text (MetaDBError c m) = m"
| "exc_text (ValueError m) = m"
| "exc_text (TypeError m) = m"
| "exc_text (KeyError m) = m"
| "exc_text (IntegrityError m) = m"
| "exc_text (ValidationError m) = m"
| "exc_text (OtherError m) = m"

definition unknown_msg :: "string \<Rightarrow> string" where
  "unknown_msg t =
     ''Unknown error! Please report to your '' @
     ''administrator providing these information:'' @
     [CHR 0x0A, CHR 0x0A] @ t"

text \<open>The \<open>except\<close> clauses, in their order: what the caller gets is a \<open>MetaDBError\<close>.\<close>

fun handler :: "exc \<Rightarrow> nat \<times> string" where
  "handler (MetaDBError c m) = (c, m)"
| "handler (IntegrityError m) = (400, ''IntegrityError: '' @ m)"
| "handler (ValidationError m) = (400, ''ValidationError: '' @ m)"
| "handler e = (500, unknown_msg (exc_text e))"

definition parse_container_file ::
  "pylib \<Rightarrow> upload \<Rightarrow> string \<Rightarrow> world \<Rightarrow> (nat \<times> string + dataset option) \<times> world" where
  "parse_container_file lib filename owner w =
     (case ingest_body lib filename owner w of
        (Inr r, w') \<Rightarrow> (Inr r, w')
      | (Inl e, w') \<Rightarrow> (Inl (handler e), w'\<lparr>w_db := w_db w\<rparr>))"

section \<open>A library instance and a container for evaluation\<close>

text \<open>
  To run the model on a concrete upload the library parameters need values. This instance
  reads a timestamp of the plain form \<open>YYYY-MM-DDTHH:MM:SS\<close>, knows no string of the two
  fallback formats, takes a UUID in its canonical 36-character spelling, puts no
  constraint on the rows and leaves a path as it is. The libraries accept more spellings
  than the instance does; the evaluations below use none of them.
\<close>

definition days_in_month :: "nat \<Rightarrow> nat \<Rightarrow> nat" where
  "days_in_month y m =
     (if m = 2 then (if y mod 4 = 0 \<and> (y mod 100 \<noteq> 0 \<or> y mod 400 = 0) then 29 else 28)
      else if m = 4 \<or> m = 6 \<or> m = 9 \<or> m = 11 then 30 else 31)"

definition iso_basic :: "string \<Rightarrow> datetime option" where
  "iso_basic s =
     (if length s = 19 \<and> s ! 4 = CHR ''-'' \<and> s ! 7 = CHR ''-'' \<and> s ! 10 = CHR ''T''
         \<and> s ! 13 = CHR '':'' \<and> s ! 16 = CHR '':''
      then
        (case all_some (map parse_nat
                 [take 4 s, take 2 (drop 5 s), take 2 (drop 8 s),
                  take 2 (drop 11 s), take 2 (drop 14 s), take 2 (drop 17 s)]) of
           Some [y, m, d, h, mi, sec] \<Rightarrow>
             (if 1 \<le> y \<and> 1 \<le> m \<and> m \<le> 12 \<and> 1 \<le> d \<and> d \<le> days_in_month y m
                 \<and> h < 24 \<and> mi < 60 \<and> sec < 60
              then Some \<lparr>dt_clock = [y, m, d, h, mi, sec], tzinfo = None\<rparr>
              else None)
         | _ \<Rightarrow> None)
      else None)"

fun ref_str :: "json \<Rightarrow> string" where
  "ref_str JNull = ''None''"
| "ref_str (JBool b) = (if b then ''True'' else ''False'')"
| "ref_str (JInt n) = (if n < 0 then ''-'' @ str_nat (nat (- n)) else str_nat (nat n))"
| "ref_str (JStr s) = s"
| "ref_str (JArr xs) = ''[...]''"
| "ref_str (JObj kvs) = ''{...}''"

definition is_hex :: "char \<Rightarrow> bool" where
  "is_hex c = (c \<in> set ''0123456789abcdef'')"

definition canonical_uuid :: "json \<Rightarrow> string option" where
  "canonical_uuid j =
     (case j of
        JStr s \<Rightarrow>
          (if length s = 36
              \<and> (\<forall>i \<in> set [0 ..< 36].
                    if i = 8 \<or> i = 13 \<or> i = 18 \<or> i = 23 then s ! i = CHR ''-''
                    else is_hex (s ! i))
           then Some s else None)
      | _ \<Rightarrow> None)"

definition ref_lib :: pylib where
  "ref_lib =
     \<lparr>fromisoformat = iso_basic,
      strptime = (\<lambda>s fmt. None),
      py_str = ref_str,
      to_uuid = canonical_uuid,
      db_constraint = (\<lambda>k fs. None),
      media_root = ''/srv/media'',
      abspath = (\<lambda>path. path)\<rparr>"

definition example_content :: "string \<Rightarrow> string \<Rightarrow> (string \<times> json) list" where
  "example_content uuid mv =
     [(''uuid'', JStr uuid),
      (''containerType'', JObj [(''name'', JStr ''myImage'')]),
      (''created'', JStr ''2023-02-17T13:00:00''),
      (''modified'', JStr ''2023-02-17T13:05:00''),
      (''static'', JBool True),
      (''complete'', JBool True),
      (''modelVersion'', JStr mv)]"

definition example_meta :: "(string \<times> json) list" where
  "example_meta =
     [(''author'', JStr ''Jane Doe''),
      (''email'', JStr ''jane@example.org''),
      (''title'', JStr ''A dataset'')]"

definition example_upload :: "(string \<times> json) list \<Rightarrow> (string \<times> json) list \<Rightarrow> upload" where
  "example_upload c m =
     \<lparr>up_size = 3,
      up_mime = ''application/zip'',
      up_zip = Some [\<lparr>m_name = ''content.json'', m_size = 1, m_json = Some (JObj c)\<rparr>,
                     \<lparr>m_name = ''meta.json'', m_size = 1, m_json = Some (JObj m)\<rparr>,
                     \<lparr>m_name = ''data.bin'', m_size = 1, m_json = None\<rparr>],
      up_chunks = [80, 75, 3]\<rparr>"

definition empty_db :: db where
  "empty_db =
     \<lparr>dataset_base = [], dataset = [], files = [], keyword_rows = [], container_types = []\<rparr>"

definition empty_world :: world where
  "empty_world = \<lparr>w_db = empty_db, w_storage = []\<rparr>"

definition uuid_a :: string where
  "uuid_a = ''6ba7b810-9dad-11d1-80b4-00c04fd430c8''"

definition uuid_b :: string where
  "uuid_b = ''6ba7b811-9dad-11d1-80b4-00c04fd430c8''"

definition uuid_test :: string where
  "uuid_test = ''00000000-0000-0000-0000-000000000001''"

text \<open>The meta dict as it is once the module is loaded, and inputs for evaluation.\<close>

definition example_parser :: "string \<Rightarrow> parser" where
  "example_parser mv =
     \<lparr>p_class = ZipContainerParser, p_filename = None, model_version = JStr mv,
      p_content = None, p_meta = None, p_files = None\<rparr>"

definition meta_fields :: fieldspec where
  "meta_fields = meta_0_3 @ [(''timestamp'', C_str, False), (''doi'', C_str, False),
                        (''license'', C_str, False)]"

definition bad_created :: "(string \<times> json) list" where
  "bad_created =
     [(''uuid'', JStr uuid_a),
      (''containerType'', JObj [(''name'', JStr ''myImage'')]),
      (''created'', JStr ''yesterday'')]"

definition incomplete_content :: "(string \<times> json) list" where
  "incomplete_content =
     [(''uuid'', JStr uuid_a),
      (''containerType'', JObj [(''name'', JStr ''myImage'')]),
      (''created'', JStr ''2023-02-17T13:00:00''),
      (''modified'', JStr ''2023-02-17T13:05:00''),
      (''static'', JBool True),
      (''complete'', JBool False),
      (''modelVersion'', JStr ''0.5.1'')]"

text \<open>
  What reading the archive and validating the sections may do to the two tables of
  records: \<open>DataSet\<close> stays as it is, and \<open>DataSetBase\<close> gains rows of new keys.
\<close>

definition extends_base :: "db \<Rightarrow> db \<Rightarrow> bool" where
  "extends_base d d' =
     (dataset d' = dataset d
      \<and> (\<exists>us. dataset_base d' = dataset_base d @ us \<and> distinct us
               \<and> set us \<inter> set (dataset_base d) = {}))"

definition placeholder_world :: world where
  "placeholder_world =
     \<lparr>w_db = empty_db\<lparr>dataset_base := [uuid_a, uuid_b]\<rparr>, w_storage = []\<rparr>"

definition test_upload :: upload where
  "test_upload =
     example_upload (example_content uuid_test ''0.5.1'' @ [(''replaces'', JStr uuid_b)])
       example_meta"

section \<open>Facts about the tables and the resolver\<close>

lemma min_supported: "MIN_SUPPORTED_VERSION = [0, 3]"
  by (simp add: MIN_SUPPORTED_VERSION_def constraints_table_def key_version_def
      version_parse_str_def parse_nat_def digit_val_def version_less_def strip_zeros_def)

lemma key_version_0_3: "key_version ''0.3'' = [0, 3]"
  by (simp add: key_version_def version_parse_str_def parse_nat_def digit_val_def)

lemma key_version_0_5_1: "key_version ''0.5.1'' = [0, 5, 1]"
  by (simp add: key_version_def version_parse_str_def parse_nat_def digit_val_def)

lemma min_supported_str: "version_str MIN_SUPPORTED_VERSION = ''0.3''"
  by (simp add: min_supported version_str_def str_nat.simps digit_char_def)

lemma module_heap_meta:
  "module_heap (Suc 0) =
     Some (meta_0_3 @ [(''timestamp'', C_str, False), (''doi'', C_str, False),
                       (''license'', C_str, False)])"
  by (simp add: module_heap_def heap_update_at_def constraints_0_5_1_def dict_copy_def
      constraints_0_3_def heap_0_def dict_update_def meta_0_3_def)

lemma module_heap_content: "module_heap 0 = Some content_0_3"
  by (simp add: module_heap_def heap_update_at_def constraints_0_5_1_def dict_copy_def
      constraints_0_3_def heap_0_def)

lemma ebind_eq_Inr: "ebind m f = Inr y \<longleftrightarrow> (\<exists>x. m = Inr x \<and> f x = Inr y)"
  by (cases m) auto

lemma ebind_eq_Inl: "ebind m f = Inl e \<longleftrightarrow> (m = Inl e \<or> (\<exists>x. m = Inr x \<and> f x = Inl e))"
  by (cases m) auto

text \<open>
  Claim C1. The resolver is to give, for a declared version at or above the minimum, the
  set of the greatest table version not above it, so that a container declaring exactly
  \<open>0.3\<close> validates. The code keeps the keys whose version is strictly below the declared
  one: at \<open>0.3\<close> no key is left, \<open>max\<close> of the empty list raises \<open>ValueError\<close>, and
  the upload of such a container ends with code 500.
\<close>

theorem resolver_fails_at_minimum_version:
  "constraints_prop (p\<lparr>model_version := JStr ''0.3''\<rparr>)
     = Inl (ValueError ''max() arg is an empty sequence'')
   \<and> fst (parse_container_file ref_lib
            (example_upload (example_content uuid_a ''0.3'') example_meta) ''alice'' empty_world)
     = Inl (500, unknown_msg ''max() arg is an empty sequence'')"
proof
  show "constraints_prop (p\<lparr>model_version := JStr ''0.3''\<rparr>)
     = Inl (ValueError ''max() arg is an empty sequence'')"
    by (simp add: constraints_prop_def version_parse_str_def parse_nat_def digit_val_def
        min_supported version_less_def strip_zeros_def constraints_table_def
        key_version_0_3 key_version_0_5_1 py_max_def)
  show "fst (parse_container_file ref_lib
            (example_upload (example_content uuid_a ''0.3'') example_meta) ''alice'' empty_world)
     = Inl (500, unknown_msg ''max() arg is an empty sequence'')"
    by code_simp
qed

text \<open>
  Claim C3. An upload sniffed as \<open>application/x-hdf\<close> is to fail with code 501.
  \<open>Hdf5ContainerParser\<close> does not override the abstract \<open>_read_filelist\<close>, so the
  call of the class raises \<open>TypeError\<close> before any section is read, and the caller gets
  code 500; neither the 501 error nor the file manifest is reached.
\<close>

theorem hdf5_upload_fails_with_500:
  "parse_container_file lib (up\<lparr>up_mime := ''application/x-hdf''\<rparr>) owner w
     = (Inl (500, unknown_msg ''Can't instantiate abstract class''), w)"
  by (simp add: parse_container_file_def ingest_body_def select_and_parse_def new_parser_def
      abstract_methods_def)

text \<open>
  Claim C4. A declared model version that parses and is strictly below the minimum
  supported version makes the resolver, and with it the validation of a section, fail
  with code 400 and a message that carries the declared version and the minimum
  \<open>0.3\<close>.
\<close>

theorem version_too_old:
  assumes "version_parse_str mv = Inr v"
    and "version_less v MIN_SUPPORTED_VERSION"
    and "model_version p = JNull"
    and "p_content p = Some (JObj kvs)"
    and "map_of kvs ''modelVersion'' = Some (JStr mv)"
  shows "constraints_prop p =
           Inl (MetaDBError 400
                 (''You tried to upload a dataset complying scidatacontainer model version ''
                  @ mv @ '' but the server requires a minimum model version of 0.3''))
         \<and> parse_validate lib p filename in_dict dbs =
           Inl (MetaDBError 400
                 (''You tried to upload a dataset complying scidatacontainer model version ''
                  @ mv @ '' but the server requires a minimum model version of 0.3''))"
proof -
  have present: "''modelVersion'' \<in> set (map fst kvs)"
    using assms(5) by (metis domI dom_map_of_conv_image_fst set_map)
  have read: "read_model_version p = Inr (p\<lparr>model_version := JStr mv\<rparr>)"
    using assms(4,5) present by (simp add: read_model_version_def attr_def)
  have c: "constraints_prop p =
           Inl (MetaDBError 400
                 (''You tried to upload a dataset complying scidatacontainer model version ''
                  @ mv @ '' but the server requires a minimum model version of 0.3''))"
    using assms(1,2,3) read
    by (simp add: constraints_prop_def too_old_msg_def min_supported_str)
  then show ?thesis by (simp add: parse_validate_def)
qed

theorem version_too_old_witness:
  "constraints_prop \<lparr>p_class = ZipContainerParser, p_filename = None, model_version = JNull,
      p_content = Some (JObj (example_content uuid_a ''0.2'')), p_meta = None, p_files = None\<rparr> =
     Inl (MetaDBError 400
           (''You tried to upload a dataset complying scidatacontainer model version ''
            @ ''0.2'' @ '' but the server requires a minimum model version of 0.3''))"
proof -
  have 1: "version_parse_str ''0.2'' = Inr [0, 2]"
    by (simp add: version_parse_str_def parse_nat_def digit_val_def)
  have 2: "version_less [0, 2] MIN_SUPPORTED_VERSION"
    by (simp add: min_supported version_less_def strip_zeros_def)
  have 3: "map_of (example_content uuid_a ''0.2'') ''modelVersion'' = Some (JStr ''0.2'')"
    by (simp add: example_content_def)
  show ?thesis
    using version_too_old [OF 1 2 _ _ 3, of "\<lparr>p_class = ZipContainerParser, p_filename = None,
      model_version = JNull, p_content = Some (JObj (example_content uuid_a ''0.2'')),
      p_meta = None, p_files = None\<rparr>"]
    by simp
qed

text \<open>
  Claim C7. \<open>timestamp\<close>, \<open>doi\<close> and \<open>license\<close> are to belong to the meta section
  from version 0.5.1 on and not to the set of version 0.3. \<open>_constraints_0_3.copy()\<close>
  copies the outer dict only, so the update of the newer set changes the one meta dict
  both sets refer to: a container declaring \<open>0.4\<close> resolves to the entry \<open>0.3\<close>,
  whose meta section holds the three fields.
\<close>

theorem oldest_entry_shares_meta_dict:
  "constraints_prop (p\<lparr>model_version := JStr ''0.4''\<rparr>)
     = Inr (constraints_0_3, p\<lparr>model_version := JStr ''0.4''\<rparr>)
   \<and> section_of constraints_0_3 ''meta''
     = Inr (meta_0_3 @ [(''timestamp'', C_str, False), (''doi'', C_str, False),
                        (''license'', C_str, False)])
   \<and> section_of constraints_0_3 ''meta'' = section_of constraints_0_5_1 ''meta''"
  by (simp add: constraints_prop_def version_parse_str_def parse_nat_def digit_val_def
      min_supported version_less_def strip_zeros_def constraints_table_def
      key_version_0_3 key_version_0_5_1 py_max_def section_of_def module_heap_meta
      constraints_0_3_def constraints_0_5_1_def dict_copy_def)

text \<open>
  Claim C9. When an ingestion fails, the database is the one it started from: whatever
  the body of the transaction wrote is dropped. The caller gets the payload of a
  \<open>MetaDBError\<close> unchanged, code 400 for an \<open>IntegrityError\<close> or a
  \<open>ValidationError\<close>, and code 500 for any other exception.
\<close>

theorem failed_ingestion_is_rolled_back:
  assumes "fst (parse_container_file lib up owner w) = Inl err"
  shows "w_db (snd (parse_container_file lib up owner w)) = w_db w
         \<and> (\<exists>e. fst (ingest_body lib up owner w) = Inl e \<and> err = handler e
                \<and> (\<forall>c m. e = MetaDBError c m \<longrightarrow> err = (c, m))
                \<and> (\<forall>m. e = IntegrityError m \<longrightarrow> fst err = 400)
                \<and> (\<forall>m. e = ValidationError m \<longrightarrow> fst err = 400)
                \<and> ((\<forall>c m. e \<noteq> MetaDBError c m) \<and> (\<forall>m. e \<noteq> IntegrityError m)
                     \<and> (\<forall>m. e \<noteq> ValidationError m) \<longrightarrow> fst err = 500))"
proof -
  obtain r w' where b: "ingest_body lib up owner w = (r, w')"
    by (cases "ingest_body lib up owner w")
  with assms obtain e where e: "r = Inl e" "err = handler e"
    by (cases r) (auto simp: parse_container_file_def)
  have "w_db (snd (parse_container_file lib up owner w)) = w_db w"
    using b e by (simp add: parse_container_file_def)
  moreover have "(\<forall>c m. e \<noteq> MetaDBError c m) \<and> (\<forall>m. e \<noteq> IntegrityError m)
                     \<and> (\<forall>m. e \<noteq> ValidationError m) \<longrightarrow> fst (handler e) = 500"
    by (cases e) auto
  ultimately show ?thesis using b e by auto
qed

theorem failed_ingestion_is_rolled_back_witness:
  "fst (parse_container_file ref_lib
          (example_upload (example_content uuid_a ''0.5.1'') []) ''alice'' empty_world)
     = Inl (400, missing_msg ''author'' ''meta'')
   \<and> w_db (snd (parse_container_file ref_lib
          (example_upload (example_content uuid_a ''0.5.1'') []) ''alice'' empty_world))
     = w_db empty_world"
proof -
  have h: "fst (parse_container_file ref_lib
          (example_upload (example_content uuid_a ''0.5.1'') []) ''alice'' empty_world)
     = Inl (400, missing_msg ''author'' ''meta'')"
    by code_simp
  from failed_ingestion_is_rolled_back [OF h] h show ?thesis by blast
qed

section \<open>The field validator's loop\<close>


lemma in_keys_map_of: "k \<in> fst ` set kvs \<longleftrightarrow> map_of kvs k \<noteq> None"
  by (simp add: map_of_eq_None_iff)

lemma validate_field_obj:
  "validate_field lib fn (JObj kvs) (key, t, req) (d, dbs) =
     (if req \<and> map_of kvs key = None then Inl (MetaDBError 400 (missing_msg key fn))
      else (case map_of kvs key of
              None \<Rightarrow> Inr (d, dbs)
            | Some raw \<Rightarrow>
                if truthy raw
                then ebind (convert lib t raw dbs)
                       (\<lambda>(v, dbs'). Inr (dict_set (snake_case key) v d, dbs'))
                else Inr (d, dbs)))"
  by (auto simp: validate_field_def in_keys_map_of split: option.splits)

lemma validate_loop_append:
  "validate_loop lib fn j (pre @ post) st =
     ebind (validate_loop lib fn j pre st) (validate_loop lib fn j post)"
proof (induction pre arbitrary: st)
  case Nil
  then show ?case by simp
next
  case (Cons item pre)
  show ?case
    by (cases "validate_field lib fn j item st") (simp_all add: Cons.IH)
qed

lemma validate_loop_missing_fails:
  assumes "(key, t, True) \<in> set c" and "map_of kvs key = None"
  shows "\<exists>e. validate_loop lib fn (JObj kvs) c st = Inl e"
  using assms
proof (induction c arbitrary: st)
  case Nil
  then show ?case by simp
next
  case (Cons item c)
  obtain d dbs where st: "st = (d, dbs)" by (cases st)
  show ?case
  proof (cases "item = (key, t, True)")
    case True
    then show ?thesis using Cons.prems(2) st by (simp add: validate_field_obj)
  next
    case False
    with Cons.prems have mem: "(key, t, True) \<in> set c" by simp
    show ?thesis
    proof (cases "validate_field lib fn (JObj kvs) item st")
      case (Inl e)
      then show ?thesis by simp
    next
      case (Inr st')
      then show ?thesis using Cons.IH [OF mem Cons.prems(2), of st'] by simp
    qed
  qed
qed

text \<open>
  Claim C5, as amended. When a field that the resolved set of a section requires is
  absent from the input mapping, the validation of the section fails. The loop stops at
  the first field of the table that fails, so the error is the one of code 400 that names
  this field and the section file whenever the fields before it in the table went
  through without an error.
\<close>

theorem missing_required_field:
  assumes "constraints_prop p = Inr (cs, p')"
    and "section_of cs filename = Inr (pre @ (key, t, True) # post)"
    and "key \<notin> set (map fst kvs)"
  shows "(\<exists>e. parse_validate lib p filename (JObj kvs) dbs = Inl e)
       \<and> (\<forall>st. validate_loop lib filename (JObj kvs) pre ([], dbs) = Inr st \<longrightarrow>
             parse_validate lib p filename (JObj kvs) dbs
               = Inl (MetaDBError 400 (missing_msg key filename)))"
proof -
  from assms(3) have none: "map_of kvs key = None" by (simp add: in_keys_map_of)
  have "\<exists>e. validate_loop lib filename (JObj kvs) (pre @ (key, t, True) # post) ([], dbs) = Inl e"
    by (rule validate_loop_missing_fails [where t = t, OF _ none]) simp
  then have 1: "\<exists>e. parse_validate lib p filename (JObj kvs) dbs = Inl e"
    using assms(1,2) by (auto simp: parse_validate_def)
  have 2: "parse_validate lib p filename (JObj kvs) dbs
               = Inl (MetaDBError 400 (missing_msg key filename))"
    if "validate_loop lib filename (JObj kvs) pre ([], dbs) = Inr st" for st
  proof -
    obtain d dbs' where st: "st = (d, dbs')" by (cases st)
    show ?thesis using assms(1,2) that none st
      by (simp add: parse_validate_def validate_loop_append validate_field_obj)
  qed
  from 1 2 show ?thesis by blast
qed


lemma resolved_set: 
  assumes "constraints_prop p = Inr (cs, p')" shows "cs = constraints_0_3"
proof -
  from assms obtain key where "map_of constraints_table key = Some cs"
    by (auto simp: constraints_prop_def ebind_eq_Inr split: if_splits option.splits json.splits)
  then show ?thesis
    by (auto simp: constraints_table_def constraints_0_5_1_def dict_copy_def split: if_splits)
qed

lemma resolved_section:
  assumes "section_of constraints_0_3 fn = Inr c"
  shows "c = content_0_3 \<or> c = meta_fields"
  using assms
  by (auto simp: section_of_def constraints_0_3_def module_heap_meta module_heap_content meta_fields_def
      split: if_splits)

lemma snake_content: "map (\<lambda>x. snake_case (fst x)) content_0_3 =
  [''uuid'', ''replaces'', ''container_type'', ''created'', ''modified'', ''static'',
   ''complete'', ''hash'', ''used_software'', ''model_version'']"
  by code_simp

lemma snake_meta: "map (\<lambda>x. snake_case (fst x)) meta_fields =
  [''author'', ''email'', ''comment'', ''title'', ''keywords'', ''description'',
   ''timestamp'', ''doi'', ''license'']"
  by code_simp

lemma snake_inj_content: "inj_on snake_case (fst ` set content_0_3)"
proof -
  have "distinct (map snake_case (map fst content_0_3))"
    by (simp add: snake_content comp_def)
  then have "inj_on snake_case (set (map fst content_0_3))"
    by (rule distinct_map [THEN iffD1, THEN conjunct2])
  then show ?thesis by simp
qed

lemma snake_inj_meta: "inj_on snake_case (fst ` set meta_fields)"
proof -
  have "distinct (map snake_case (map fst meta_fields))"
    by (simp add: snake_meta comp_def)
  then have "inj_on snake_case (set (map fst meta_fields))"
    by (rule distinct_map [THEN iffD1, THEN conjunct2])
  then show ?thesis by simp
qed

lemma keys_dict_set: "fst ` set (dict_set k v d) = insert k (fst ` set d)"
proof (induction d)
  case Nil
  then show ?case by simp
next
  case (Cons a d)
  obtain k' v' where a: "a = (k', v')" by (cases a)
  show ?case using Cons.IH by (cases "k' = k") (simp_all add: a insert_commute)
qed

lemma keyword_loop_no_metadb: "keyword_loop ns d \<noteq> Inl (MetaDBError c m)"
  by (induction ns arbitrary: d) (auto simp: multiple_def split: list.splits)

lemma apply_coercer_no_metadb: "apply_coercer lib t v d \<noteq> Inl (MetaDBError c m)"
proof (cases t)
  case C_datetime_parser
  then show ?thesis
    by (auto simp: datetime_parser_def split: json.splits option.splits sum.splits)
next
  case C_replaces_parser
  then show ?thesis
    by (auto simp: replaces_parser_def base_get_or_create_def multiple_def
        split: option.splits list.splits)
next
  case C_used_software_parser
  then show ?thesis
    by (cases v) (auto simp: used_software_parser_def)
next
  case C_keyword_parser
  then show ?thesis
    using keyword_loop_no_metadb
    by (cases v) (auto simp: keyword_parser_def ebind_eq_Inl split: sum.splits)
qed auto

lemma convert_metadb:
  assumes "convert lib t raw d = Inl (MetaDBError c m)"
  shows "c = 400 \<and> (\<exists>s. m = convert_msg s)"
  using assms apply_coercer_no_metadb [of lib t raw d]
  by (auto simp: convert_def on_value_error_def split: sum.splits exc.splits json.splits)

lemma validate_loop_metadb:
  assumes "validate_loop lib fn (JObj kvs) c st = Inl (MetaDBError code m)"
  shows "(\<exists>k t. (k, t, True) \<in> set c \<and> map_of kvs k = None \<and> m = missing_msg k fn)
         \<or> (\<exists>s. m = convert_msg s)"
  using assms
proof (induction c arbitrary: st)
  case Nil
  then show ?case by simp
next
  case (Cons item c)
  obtain k t r where item: "item = (k, t, r)" by (cases item)
  obtain d dbs where st: "st = (d, dbs)" by (cases st)
  show ?case
  proof (cases "validate_field lib fn (JObj kvs) item st")
    case (Inl e)
    with Cons.prems have e: "validate_field lib fn (JObj kvs) (k, t, r) (d, dbs) = Inl (MetaDBError code m)"
      by (simp add: item st)
    then show ?thesis
      using convert_metadb [of lib t _ dbs code m]
      by (auto simp: validate_field_obj item ebind_eq_Inl split: if_splits option.splits)
  next
    case (Inr st')
    with Cons.prems have "validate_loop lib fn (JObj kvs) c st' = Inl (MetaDBError code m)"
      by simp
    from Cons.IH [OF this] show ?thesis by auto
  qed
qed

lemma validate_field_keys:
  assumes "validate_field lib fn (JObj kvs) (k, t, r) (d, dbs) = Inr (d1, dbs1)"
    and "x \<in> fst ` set d1"
  shows "x \<in> fst ` set d \<or> (x = snake_case k \<and> (\<exists>v. map_of kvs k = Some v \<and> truthy v))"
proof -
  from assms(1) consider (same) "d1 = d"
    | (stored) y raw where "d1 = dict_set (snake_case k) y d" "map_of kvs k = Some raw" "truthy raw"
    by (auto simp: validate_field_obj ebind_eq_Inr split: if_splits option.splits)
  then show ?thesis
  proof cases
    case same
    with assms(2) show ?thesis by simp
  next
    case stored
    from assms(2) have "x \<in> insert (snake_case k) (fst ` set d)"
      unfolding stored(1) keys_dict_set .
    with stored(2,3) show ?thesis by blast
  qed
qed

lemma validate_loop_keys:
  assumes "validate_loop lib fn (JObj kvs) c (d, dbs) = Inr (d', dbs')"
    and "x \<in> fst ` set d'"
  shows "x \<in> fst ` set d
         \<or> (\<exists>k v. k \<in> fst ` set c \<and> map_of kvs k = Some v \<and> truthy v \<and> x = snake_case k)"
  using assms
proof (induction c arbitrary: d dbs)
  case Nil
  then show ?case by simp
next
  case (Cons item c)
  obtain k t r where item: "item = (k, t, r)" by (cases item)
  from Cons.prems(1) obtain d1 dbs1 where
    f: "validate_field lib fn (JObj kvs) (k, t, r) (d, dbs) = Inr (d1, dbs1)"
    and l: "validate_loop lib fn (JObj kvs) c (d1, dbs1) = Inr (d', dbs')"
    by (auto simp: item ebind_eq_Inr)
  from Cons.IH [OF l Cons.prems(2)] show ?case
  proof
    assume "x \<in> fst ` set d1"
    from validate_field_keys [OF f this] show ?thesis by (auto simp: item)
  next
    assume "\<exists>k v. k \<in> fst ` set c \<and> map_of kvs k = Some v \<and> truthy v \<and> x = snake_case k"
    then show ?thesis by auto
  qed
qed

lemma missing_msg_inj: "missing_msg k fn = missing_msg k' fn \<Longrightarrow> k = k'"
  by (simp add: missing_msg_def)

lemma missing_msg_not_convert: "missing_msg k fn \<noteq> convert_msg s"
  by (simp add: missing_msg_def convert_msg_def)

text \<open>
  Claim C10. A required field that is present with a falsy value passes the loop with
  nothing changed: no error is raised, the coercer is not applied, and the state is the
  one before. The validation of the section never reports this field as missing, and a
  validated output has no entry under the field's internal name.
\<close>

theorem falsy_required_value_dropped:
  assumes "constraints_prop p = Inr (cs, p')"
    and "section_of cs filename = Inr c"
    and "(key, t, True) \<in> set c"
    and "map_of kvs key = Some v"
    and "\<not> truthy v"
  shows "validate_field lib filename (JObj kvs) (key, t, True) (d, dbs0) = Inr (d, dbs0)
       \<and> parse_validate lib p filename (JObj kvs) dbs
           \<noteq> Inl (MetaDBError 400 (missing_msg key filename))
       \<and> (\<forall>out q dbs'. parse_validate lib p filename (JObj kvs) dbs = Inr (out, q, dbs')
             \<longrightarrow> map_of out (snake_case key) = None)"
proof -
  have 1: "validate_field lib filename (JObj kvs) (key, t, True) (d, dbs0) = Inr (d, dbs0)"
    using assms(4,5) by (simp add: validate_field_obj)
  have 2: "parse_validate lib p filename (JObj kvs) dbs
           \<noteq> Inl (MetaDBError 400 (missing_msg key filename))"
  proof
    assume "parse_validate lib p filename (JObj kvs) dbs
           = Inl (MetaDBError 400 (missing_msg key filename))"
    with assms(1,2) have "validate_loop lib filename (JObj kvs) c ([], dbs)
           = Inl (MetaDBError 400 (missing_msg key filename))"
      by (auto simp: parse_validate_def ebind_eq_Inl)
    from validate_loop_metadb [OF this] show False
      using assms(4) by (auto dest: missing_msg_inj simp: missing_msg_not_convert)
  qed
  have cs: "cs = constraints_0_3" using assms(1) by (rule resolved_set)
  with assms(2) have c: "c = content_0_3 \<or> c = meta_fields" by (simp add: resolved_section)
  then have inj: "inj_on snake_case (fst ` set c)"
    using snake_inj_content snake_inj_meta by auto
  have 3: "map_of out (snake_case key) = None"
    if "parse_validate lib p filename (JObj kvs) dbs = Inr (out, q, dbs')" for out q dbs'
  proof -
    from that assms(1,2) have loop: "validate_loop lib filename (JObj kvs) c ([], dbs) = Inr (out, dbs')"
      by (auto simp: parse_validate_def ebind_eq_Inr)
    have "snake_case key \<notin> fst ` set out"
    proof
      assume "snake_case key \<in> fst ` set out"
      from validate_loop_keys [OF loop this]
      obtain k w where k: "k \<in> fst ` set c" "map_of kvs k = Some w" "truthy w"
        "snake_case key = snake_case k" by auto
      have "key \<in> fst ` set c" using assms(3) by force
      with inj k(1,4) have "key = k" by (auto dest: inj_onD)
      with k(2,3) assms(4,5) show False by simp
    qed
    then show ?thesis by (simp add: map_of_eq_None_iff)
  qed
  from 1 2 3 show ?thesis by blast
qed


lemma is_sub_prefix: "is_sub p (p @ b)"
  by (cases p; cases b) simp_all

lemma is_sub_append: "is_sub p (a @ p @ b)"
proof (induction a)
  case Nil
  then show ?case by (simp add: is_sub_prefix)
next
  case (Cons x a)
  then show ?case by simp
qed

lemma is_sub_convert_msg: "is_sub raw (convert_msg raw)"
proof -
  have "convert_msg raw = (''Failed to convert '' @ [CHR 0x27]) @ raw @
     ([CHR 0x27] @ '' using '' @ ''the default parser. Make '' @ ''sure it has the right type.'')"
    by (simp add: convert_msg_def)
  then show ?thesis by (simp only: is_sub_append)
qed

text \<open>
  Claim C6, as amended. When the coercer of a field raises \<open>ValueError\<close> on a
  non-empty string, and the fields before it in the table went through, the validation
  of the section fails with code 400 and the message built from the raw value alone:
  the raw value is part of it, the name of the field is not.
\<close>

theorem coercion_failure_reported:
  assumes "constraints_prop p = Inr (cs, p')"
    and "section_of cs filename = Inr (pre @ (key, t, req) # post)"
    and "validate_loop lib filename (JObj kvs) pre ([], dbs) = Inr (d, dbs1)"
    and "map_of kvs key = Some (JStr raw)"
    and "raw \<noteq> []"
    and "apply_coercer lib t (JStr raw) dbs1 = Inl (ValueError m)"
  shows "parse_validate lib p filename (JObj kvs) dbs = Inl (MetaDBError 400 (convert_msg raw))
         \<and> is_sub raw (convert_msg raw)"
  using assms
  by (simp add: parse_validate_def validate_loop_append validate_field_obj convert_def
      on_value_error_def is_sub_convert_msg)

lemma constraints_prop_0_5_1:
  "constraints_prop (example_parser ''0.5.1'') = Inr (constraints_0_3, example_parser ''0.5.1'')"
  by code_simp

lemma section_meta: "section_of constraints_0_3 ''meta'' = Inr meta_fields"
  by (simp add: section_of_def constraints_0_3_def module_heap_meta meta_fields_def)

lemma section_content: "section_of constraints_0_3 ''content'' = Inr content_0_3"
  by (simp add: section_of_def constraints_0_3_def module_heap_content)

theorem coercion_failure_reported_witness:
  "parse_validate ref_lib (example_parser ''0.5.1'') ''content'' (JObj bad_created) empty_db
     = Inl (MetaDBError 400 (convert_msg ''yesterday''))
   \<and> is_sub ''yesterday'' (convert_msg ''yesterday'')"
proof -
  have sec: "section_of constraints_0_3 ''content'' =
       Inr ([(''uuid'', C_str, True), (''replaces'', C_replaces_parser, False),
             (''containerType'', C_containerType_parser, True)]
            @ (''created'', C_datetime_parser, True) #
            [(''modified'', C_datetime_parser, True), (''static'', C_bool, True),
             (''complete'', C_bool, True), (''hash'', C_str, False),
             (''usedSoftware'', C_used_software_parser, False),
             (''modelVersion'', C_str, True)])"
    by (simp add: section_content content_0_3_def)
  have pre: "validate_loop ref_lib ''content'' (JObj bad_created)
        [(''uuid'', C_str, True), (''replaces'', C_replaces_parser, False),
         (''containerType'', C_containerType_parser, True)] ([], empty_db)
      = Inr ([(''uuid'', VStr uuid_a),
              (''container_type'', VContainerType (JObj [(''name'', JStr ''myImage'')]))],
             empty_db\<lparr>container_types := [JObj [(''name'', JStr ''myImage'')]]\<rparr>)"
    by code_simp
  have raw: "map_of bad_created ''created'' = Some (JStr ''yesterday'')"
    by (simp add: bad_created_def)
  have fail: "apply_coercer ref_lib C_datetime_parser (JStr ''yesterday'')
        (empty_db\<lparr>container_types := [JObj [(''name'', JStr ''myImage'')]]\<rparr>)
      = Inl (ValueError (''time data does not match format: '' @ ''yesterday''))"
    by (simp add: datetime_parser_def ref_lib_def iso_basic_def)
  show ?thesis
    using coercion_failure_reported [OF constraints_prop_0_5_1 sec pre raw _ fail]
    by simp
qed

text \<open>
  The timestamp \<open>yesterday\<close> under \<open>created\<close> is rejected with a message in which
  \<open>created\<close> does not occur.
\<close>

theorem coercion_message_omits_field:
  "parse_validate ref_lib (example_parser ''0.5.1'') ''content'' (JObj bad_created) empty_db
     = Inl (MetaDBError 400 (convert_msg ''yesterday''))
   \<and> \<not> is_sub ''created'' (convert_msg ''yesterday'')"
  by code_simp

theorem missing_required_field_witness:
  "parse_validate ref_lib (example_parser ''0.5.1'') ''meta''
      (JObj [(''author'', JStr ''Jane Doe'')]) empty_db
     = Inl (MetaDBError 400 (missing_msg ''email'' ''meta''))"
proof -
  have sec: "section_of constraints_0_3 ''meta'' =
       Inr ([(''author'', C_str, True)] @ (''email'', C_str, True) #
            [(''comment'', C_str, False), (''title'', C_str, True),
             (''keywords'', C_keyword_parser, False), (''description'', C_str, False),
             (''timestamp'', C_str, False), (''doi'', C_str, False),
             (''license'', C_str, False)])"
    by (simp add: section_meta meta_fields_def meta_0_3_def)
  have absent: "''email'' \<notin> set (map fst [(''author'', JStr ''Jane Doe'')])"
    by simp
  have pre: "validate_loop ref_lib ''meta'' (JObj [(''author'', JStr ''Jane Doe'')])
        [(''author'', C_str, True)] ([], empty_db) = Inr ([(''author'', VStr ''Jane Doe'')], empty_db)"
    by code_simp
  from missing_required_field [OF constraints_prop_0_5_1 sec absent, of ref_lib empty_db] pre
  show ?thesis by blast
qed

text \<open>
  With an empty \<open>meta.json\<close> the required field \<open>email\<close> is absent, and the error
  names \<open>author\<close>, the first field of the table.
\<close>

theorem missing_field_error_names_first:
  "section_of constraints_0_3 ''meta'' = Inr meta_fields
   \<and> (''email'', C_str, True) \<in> set meta_fields
   \<and> ''email'' \<notin> set (map fst ([] :: (string \<times> json) list))
   \<and> parse_validate ref_lib (example_parser ''0.5.1'') ''meta'' (JObj []) empty_db
       = Inl (MetaDBError 400 (missing_msg ''author'' ''meta''))
   \<and> missing_msg ''author'' ''meta'' \<noteq> missing_msg ''email'' ''meta''"
proof -
  have "parse_validate ref_lib (example_parser ''0.5.1'') ''meta'' (JObj []) empty_db
       = Inl (MetaDBError 400 (missing_msg ''author'' ''meta''))"
    by code_simp
  then show ?thesis
    by (simp add: section_meta meta_fields_def meta_0_3_def missing_msg_def)
qed

theorem falsy_required_value_dropped_witness:
  "(case parse_validate ref_lib (example_parser ''0.5.1'') ''content'' (JObj incomplete_content)
          empty_db of
      Inl e \<Rightarrow> False
    | Inr (out, q, dbs') \<Rightarrow> map_of out (snake_case ''complete'') = None)"
proof -
  have ok: "(case parse_validate ref_lib (example_parser ''0.5.1'') ''content''
                (JObj incomplete_content) empty_db of Inl e \<Rightarrow> False | Inr r \<Rightarrow> True)"
    by code_simp
  then obtain out q dbs' where r: "parse_validate ref_lib (example_parser ''0.5.1'') ''content''
                (JObj incomplete_content) empty_db = Inr (out, q, dbs')"
    by (auto split: sum.splits)
  have mem: "(''complete'', C_bool, True) \<in> set content_0_3"
    by (simp add: content_0_3_def)
  have v: "map_of incomplete_content ''complete'' = Some (JBool False)"
    by (simp add: incomplete_content_def)
  from falsy_required_value_dropped [OF constraints_prop_0_5_1 section_content mem v,
      of ref_lib "[]" empty_db empty_db] r
  have "map_of out (snake_case ''complete'') = None" by simp
  with r show ?thesis by simp
qed

section \<open>Records and identifiers\<close>


lemma extends_base_refl: "extends_base d d"
  by (simp add: extends_base_def)

lemma extends_base_trans:
  assumes "extends_base a b" and "extends_base b c"
  shows "extends_base a c"
proof -
  from assms(1) obtain us where us: "dataset b = dataset a" "dataset_base b = dataset_base a @ us"
    "distinct us" "set us \<inter> set (dataset_base a) = {}"
    by (auto simp: extends_base_def)
  from assms(2) obtain vs where vs: "dataset c = dataset b" "dataset_base c = dataset_base b @ vs"
    "distinct vs" "set vs \<inter> set (dataset_base b) = {}"
    by (auto simp: extends_base_def)
  have "dataset_base c = dataset_base a @ (us @ vs)" using us vs by simp
  moreover have "distinct (us @ vs)" using us vs by auto
  moreover have "set (us @ vs) \<inter> set (dataset_base a) = {}" using us vs by auto
  ultimately show ?thesis using us vs unfolding extends_base_def by metis
qed

lemma extends_base_wf: "extends_base d d' \<Longrightarrow> wf_db d \<Longrightarrow> wf_db d'"
  by (auto simp: extends_base_def wf_db_def)

lemma extends_base_only_files:
  "dataset d' = dataset d \<Longrightarrow> dataset_base d' = dataset_base d \<Longrightarrow> extends_base d d'"
  by (simp add: extends_base_def)

lemma file_get_or_create_base:
  "file_get_or_create n sz c d = Inr (f, d') \<Longrightarrow> extends_base d d'"
  by (auto simp: file_get_or_create_def extends_base_def Let_def split: list.splits)

lemma filelist_loop_base:
  "filelist_loop ms ns (fs, d) = Inr (fs', d') \<Longrightarrow> extends_base d d'"
proof (induction ns arbitrary: fs d)
  case Nil
  then show ?case by (simp add: extends_base_refl)
next
  case (Cons n ns)
  from Cons.prems obtain info f d1 where
    g: "(if ends_with n ''.json''
            then ebind (json_load info) (\<lambda>data. file_get_or_create n (m_size info) (Some data) d)
            else file_get_or_create n (m_size info) None d) = Inr (f, d1)"
    and l: "filelist_loop ms ns (fs @ [f], d1) = Inr (fs', d')"
    by (auto simp: ebind_eq_Inr)
  from g have "extends_base d d1"
    by (auto simp: ebind_eq_Inr split: if_splits dest: file_get_or_create_base)
  with Cons.IH [OF l] show ?case by (blast intro: extends_base_trans)
qed

lemma read_filelist_base:
  "read_filelist p d = Inr (p', d') \<Longrightarrow> extends_base d d'"
  by (auto simp: read_filelist_def ebind_eq_Inr extends_base_refl
      split: parser_class.splits dest: filelist_loop_base)

lemma keyword_loop_base: "keyword_loop ns d = Inr d' \<Longrightarrow> extends_base d d'"
proof (induction ns arbitrary: d)
  case Nil
  then show ?case by (simp add: extends_base_refl)
next
  case (Cons n ns)
  show ?case
  proof (cases "filter (\<lambda>k. k = n) (keyword_rows d)")
    case Nil
    with Cons.prems have "keyword_loop ns (d\<lparr>keyword_rows := keyword_rows d @ [n]\<rparr>) = Inr d'"
      by simp
    from Cons.IH [OF this] show ?thesis by (simp add: extends_base_def)
  next
    case (Cons k ks)
    with Cons.prems have "keyword_loop ns d = Inr d'"
      by (cases ks) simp_all
    then show ?thesis by (rule Cons.IH)
  qed
qed

lemma base_get_or_create_base: "base_get_or_create u d = Inr d' \<Longrightarrow> extends_base d d'"
  by (auto simp: base_get_or_create_def extends_base_def filter_empty_conv split: list.splits)

lemma apply_coercer_base:
  "apply_coercer lib t v d = Inr (x, d') \<Longrightarrow> extends_base d d'"
proof (cases t)
  case C_replaces_parser
  assume "apply_coercer lib t v d = Inr (x, d')"
  with C_replaces_parser show ?thesis
    by (auto simp: replaces_parser_def extends_base_refl
        split: option.splits list.splits sum.splits dest: base_get_or_create_base)
next
  case C_keyword_parser
  assume "apply_coercer lib t v d = Inr (x, d')"
  with C_keyword_parser show ?thesis
    by (auto simp: keyword_parser_def split: sum.splits dest: keyword_loop_base)
next
  case C_containerType_parser
  assume "apply_coercer lib t v d = Inr (x, d')"
  with C_containerType_parser show ?thesis
    by (auto simp: to_ContainerType_def extends_base_def split: if_splits)
qed (auto simp: extends_base_refl split: json.splits sum.splits)

lemma convert_base: "convert lib t raw d = Inr (x, d') \<Longrightarrow> extends_base d d'"
  by (auto simp: convert_def split: sum.splits exc.splits dest: apply_coercer_base)

lemma validate_field_base:
  assumes "validate_field lib fn j item (d, dbs) = Inr (d', dbs')"
  shows "extends_base dbs dbs'"
proof -
  obtain k t r where item: "item = (k, t, r)" by (cases item)
  from assms consider (same) "dbs' = dbs"
    | (stored) raw x where "convert lib t raw dbs = Inr (x, dbs')"
    by (auto simp: validate_field_def item ebind_eq_Inr split: if_splits)
  then show ?thesis
  proof cases
    case same
    then show ?thesis by (simp add: extends_base_refl)
  next
    case stored
    then show ?thesis by (rule convert_base)
  qed
qed

lemma validate_loop_base:
  "validate_loop lib fn j c (d, dbs) = Inr (d', dbs') \<Longrightarrow> extends_base dbs dbs'"
proof (induction c arbitrary: d dbs)
  case Nil
  then show ?case by (simp add: extends_base_refl)
next
  case (Cons item c)
  from Cons.prems obtain d1 dbs1 where
    f: "validate_field lib fn j item (d, dbs) = Inr (d1, dbs1)"
    and l: "validate_loop lib fn j c (d1, dbs1) = Inr (d', dbs')"
    by (auto simp: ebind_eq_Inr)
  from validate_field_base [OF f] Cons.IH [OF l] show ?case
    by (rule extends_base_trans)
qed

lemma parse_validate_base:
  "parse_validate lib p fn j dbs = Inr (d, p', dbs') \<Longrightarrow> extends_base dbs dbs'"
  by (auto simp: parse_validate_def ebind_eq_Inr dest: validate_loop_base)


lemma count_base_zero: "count_base d u = 0 \<longleftrightarrow> u \<notin> set (dataset_base d)"
  by (auto simp: count_base_def filter_empty_conv)

lemma count_full_keys:
  "count_full d u = length (filter (\<lambda>k. k = u) (map ds_key (dataset d)))"
  by (simp add: count_full_def filter_map comp_def)

lemma count_full_zero: "count_full d u = 0 \<longleftrightarrow> u \<notin> set (map ds_key (dataset d))"
  by (auto simp: count_full_def filter_empty_conv)

lemma count_one: "distinct xs \<Longrightarrow> x \<in> set xs \<Longrightarrow> length (filter (\<lambda>k. k = x) xs) = 1"
proof (induction xs)
  case Nil
  then show ?case by simp
next
  case (Cons a xs)
  then show ?case by (auto simp: filter_empty_conv)
qed

lemma wf_count_base: "wf_db d \<Longrightarrow> u \<in> set (dataset_base d) \<Longrightarrow> count_base d u = 1"
  by (simp add: wf_db_def count_base_def count_one)

lemma wf_count_full: "wf_db d \<Longrightarrow> u \<in> set (map ds_key (dataset d)) \<Longrightarrow> count_full d u = 1"
  unfolding count_full_keys by (rule count_one) (simp_all add: wf_db_def)

lemma save_dataset_result:
  assumes "save_dataset lib obj d = Inr d'"
  shows "dataset_base d' =
           (if ds_key obj \<in> set (dataset_base d) then dataset_base d
            else dataset_base d @ [ds_key obj])"
    and "dataset d' =
           (if ds_key obj \<in> set (map ds_key (dataset d))
            then map (\<lambda>r. if ds_key r = ds_key obj then obj\<lparr>ds_id := ds_key obj\<rparr> else r) (dataset d)
            else dataset d @ [obj\<lparr>ds_id := ds_key obj\<rparr>])"
  using assms by (auto simp: save_dataset_def Let_def split: option.splits)

lemma save_dataset_keys:
  assumes "save_dataset lib obj d = Inr d'"
  shows "dataset_base d' =
           (if ds_key obj \<in> set (dataset_base d) then dataset_base d
            else dataset_base d @ [ds_key obj])"
    and "map ds_key (dataset d') =
           (if ds_key obj \<in> set (map ds_key (dataset d)) then map ds_key (dataset d)
            else map ds_key (dataset d) @ [ds_key obj])"
proof -
  show "dataset_base d' =
           (if ds_key obj \<in> set (dataset_base d) then dataset_base d
            else dataset_base d @ [ds_key obj])"
    by (rule save_dataset_result(1) [OF assms])
  have "map ds_key (map (\<lambda>r. if ds_key r = ds_key obj then obj\<lparr>ds_id := ds_key obj\<rparr> else r) rows)
        = map ds_key rows" for rows
    by (induction rows) auto
  then show "map ds_key (dataset d') =
           (if ds_key obj \<in> set (map ds_key (dataset d)) then map ds_key (dataset d)
            else map ds_key (dataset d) @ [ds_key obj])"
    by (simp add: save_dataset_result(2) [OF assms])
qed

lemma save_dataset_wf:
  assumes "save_dataset lib obj d = Inr d'" and "wf_db d"
  shows "wf_db d'"
  using save_dataset_keys [OF assms(1)] assms(2)
  unfolding wf_db_def by (auto split: if_splits)

lemma save_dataset_present:
  assumes "save_dataset lib obj d = Inr d'"
  shows "ds_key obj \<in> set (dataset_base d')" and "ds_key obj \<in> set (map ds_key (dataset d'))"
  using save_dataset_keys [OF assms] by (auto split: if_splits)

lemma update_attributes_effect:
  assumes "update_attributes lib obj dd user d = Inr (ob, d')"
  shows "ob = obj\<lparr>ds_fields := dict_update (ds_fields obj) dd\<rparr>"
    and "save_dataset lib ob d = Inr d'"
  using assms by (auto simp: update_attributes_def Let_def ebind_eq_Inr)

lemma base_delete_keys:
  "dataset_base (base_delete u d) = filter (\<lambda>i. i \<noteq> u) (dataset_base d)"
  "map ds_key (dataset (base_delete u d)) = filter (\<lambda>k. k \<noteq> u) (map ds_key (dataset d))"
  by (simp_all add: base_delete_def filter_map comp_def)

lemma base_delete_wf: "wf_db d \<Longrightarrow> wf_db (base_delete u d)"
  unfolding wf_db_def base_delete_keys by auto

lemma base_delete_no_child:
  "count_full d u = 0 \<Longrightarrow> dataset (base_delete u d) = dataset d"
  by (auto simp: base_delete_def count_full_def filter_empty_conv filter_id_conv)

lemma dataset_get_row:
  assumes "dataset_get u d = Inr obj"
  shows "ds_key obj = u" and "obj \<in> set (dataset d)"
proof -
  from assms have "filter (\<lambda>r. ds_key r = u) (dataset d) = [obj]"
    by (auto simp: dataset_get_def split: list.splits)
  then have "obj \<in> set (filter (\<lambda>r. ds_key r = u) (dataset d))" by simp
  then show "ds_key obj = u" and "obj \<in> set (dataset d)" by simp_all
qed

lemma create_dataset_effect:
  assumes "create_dataset lib u uuid dd user d = Inr (r, d')"
  shows "\<exists>ob. r = Some ob
           \<and> ob = \<lparr>ds_key = u, ds_id = uuid,
                   ds_fields = dict_update [(''owner'', VUser user), (''complete'', VBool False)] dd\<rparr>
           \<and> save_dataset lib ob d = Inr d'"
proof -
  define obj0 where "obj0 = \<lparr>ds_key = u, ds_id = uuid,
     ds_fields = [(''owner'', VUser user), (''complete'', VBool False)]\<rparr>"
  from assms obtain ob where r: "r = Some ob"
    and ua: "update_attributes lib obj0 dd user d = Inr (ob, d')"
    by (auto simp: create_dataset_def Let_def ebind_eq_Inr obj0_def)
  from update_attributes_effect [OF ua] r show ?thesis by (simp add: obj0_def)
qed

text \<open>What the three ways through the identity branch do to the two tables.\<close>

lemma identity_branch_effect:
  assumes "identity_branch lib uuid dd user d = Inr (Some obj, d')" and "wf_db d"
  shows "to_uuid lib (JStr uuid) = Some (ds_key obj)"
    and "count_full d (ds_key obj) = 0 \<Longrightarrow>
           dataset_base d' = filter (\<lambda>i. i \<noteq> ds_key obj) (dataset_base d) @ [ds_key obj]
         \<and> dataset d' = dataset d @ [obj\<lparr>ds_id := ds_key obj\<rparr>]
         \<and> obj = \<lparr>ds_key = ds_key obj, ds_id = uuid,
                  ds_fields = dict_update [(''owner'', VUser user), (''complete'', VBool False)]
                                (dict_del ''uuid'' dd)\<rparr>"
    and "count_full d (ds_key obj) \<noteq> 0 \<Longrightarrow>
           dataset_base d' = dataset_base d
         \<and> dataset d' =
             map (\<lambda>r. if ds_key r = ds_key obj then obj\<lparr>ds_id := ds_key obj\<rparr> else r) (dataset d)
         \<and> (\<exists>old \<in> set (dataset d). ds_key old = ds_key obj
               \<and> obj = old\<lparr>ds_fields := dict_update (ds_fields old) (dict_del ''uuid'' dd)\<rparr>)"
proof -
  from assms(1) have nt: "\<not> starts_with uuid test_prefix"
    by (auto simp: identity_branch_def parse_test_data_def split: if_splits)
  with assms(1) obtain u where u: "to_uuid lib (JStr uuid) = Some u"
    by (auto simp: identity_branch_def Let_def split: option.splits)
  from assms(1) nt u consider
      (update) obj0 where "count_base d u \<noteq> 0" "count_full d u \<noteq> 0" "dataset_get u d = Inr obj0"
        "update_attributes lib obj0 (dict_del ''uuid'' dd) user d = Inr (obj, d')"
    | (replace) "count_base d u \<noteq> 0" "count_full d u = 0"
        "create_dataset lib u uuid (dict_del ''uuid'' dd) user (base_delete u d) = Inr (Some obj, d')"
    | (create) "count_base d u = 0"
        "create_dataset lib u uuid (dict_del ''uuid'' dd) user d = Inr (Some obj, d')"
    by (auto simp: identity_branch_def Let_def ebind_eq_Inr split: if_splits)
  then have main:
    "ds_key obj = u
     \<and> (count_full d (ds_key obj) = 0 \<longrightarrow>
           dataset_base d' = filter (\<lambda>i. i \<noteq> ds_key obj) (dataset_base d) @ [ds_key obj]
         \<and> dataset d' = dataset d @ [obj\<lparr>ds_id := ds_key obj\<rparr>]
         \<and> obj = \<lparr>ds_key = ds_key obj, ds_id = uuid,
                  ds_fields = dict_update [(''owner'', VUser user), (''complete'', VBool False)]
                                (dict_del ''uuid'' dd)\<rparr>)
     \<and> (count_full d (ds_key obj) \<noteq> 0 \<longrightarrow>
           dataset_base d' = dataset_base d
         \<and> dataset d' =
             map (\<lambda>r. if ds_key r = ds_key obj then obj\<lparr>ds_id := ds_key obj\<rparr> else r) (dataset d)
         \<and> (\<exists>old \<in> set (dataset d). ds_key old = ds_key obj
               \<and> obj = old\<lparr>ds_fields := dict_update (ds_fields old) (dict_del ''uuid'' dd)\<rparr>))"
  proof cases
    case update
    note row = dataset_get_row [OF update(3)]
    note ua = update_attributes_effect [OF update(4)]
    have k: "ds_key obj = u" using ua(1) row(1) by simp
    have inb: "u \<in> set (dataset_base d)" using update(1) by (simp add: count_base_zero)
    have ink: "u \<in> set (map ds_key (dataset d))" using update(2) by (simp add: count_full_zero)
    have "dataset_base d' = dataset_base d"
      using save_dataset_result(1) [OF ua(2)] inb k by simp
    moreover have "dataset d' =
        map (\<lambda>r. if ds_key r = ds_key obj then obj\<lparr>ds_id := ds_key obj\<rparr> else r) (dataset d)"
      using save_dataset_result(2) [OF ua(2)] ink k by simp
    moreover have "\<exists>old \<in> set (dataset d). ds_key old = ds_key obj
               \<and> obj = old\<lparr>ds_fields := dict_update (ds_fields old) (dict_del ''uuid'' dd)\<rparr>"
      using row ua(1) k by (intro bexI [of _ obj0]) simp_all
    ultimately show ?thesis using update(2) k by simp
  next
    case replace
    from create_dataset_effect [OF replace(3)]
    have f: "obj = \<lparr>ds_key = u, ds_id = uuid,
          ds_fields = dict_update [(''owner'', VUser user), (''complete'', VBool False)]
                        (dict_del ''uuid'' dd)\<rparr>"
      and sv: "save_dataset lib obj (base_delete u d) = Inr d'" by auto
    have k: "ds_key obj = u" by (subst f) simp
    have nb: "u \<notin> set (dataset_base (base_delete u d))" by (simp add: base_delete_keys)
    have same: "dataset (base_delete u d) = dataset d"
      using replace(2) by (rule base_delete_no_child)
    have nk: "u \<notin> set (map ds_key (dataset d))" using replace(2) by (simp add: count_full_zero)
    have "dataset_base d' = filter (\<lambda>i. i \<noteq> u) (dataset_base d) @ [u]"
      using save_dataset_result(1) [OF sv] nb k by (simp add: base_delete_keys)
    moreover have "dataset d' = dataset d @ [obj\<lparr>ds_id := u\<rparr>]"
      using save_dataset_result(2) [OF sv] nk k same by simp
    ultimately show ?thesis using replace(2) k f by simp
  next
    case create
    from create_dataset_effect [OF create(2)]
    have f: "obj = \<lparr>ds_key = u, ds_id = uuid,
          ds_fields = dict_update [(''owner'', VUser user), (''complete'', VBool False)]
                        (dict_del ''uuid'' dd)\<rparr>"
      and sv: "save_dataset lib obj d = Inr d'" by auto
    have k: "ds_key obj = u" by (subst f) simp
    have nb: "u \<notin> set (dataset_base d)" using create(1) by (simp add: count_base_zero)
    with assms(2) have nk: "u \<notin> set (map ds_key (dataset d))"
      by (auto simp: wf_db_def)
    then have z: "count_full d u = 0" by (simp add: count_full_zero)
    have fl: "filter (\<lambda>i. i \<noteq> u) (dataset_base d) = dataset_base d"
      using nb by (auto simp: filter_id_conv)
    have "dataset_base d' = filter (\<lambda>i. i \<noteq> u) (dataset_base d) @ [u]"
      using save_dataset_result(1) [OF sv] nb k fl by simp
    moreover have "dataset d' = dataset d @ [obj\<lparr>ds_id := u\<rparr>]"
      using save_dataset_result(2) [OF sv] nk k by simp
    ultimately show ?thesis using z k f by simp
  qed
  show "to_uuid lib (JStr uuid) = Some (ds_key obj)"
    using u main [THEN conjunct1] by simp
  show "count_full d (ds_key obj) = 0 \<Longrightarrow>
           dataset_base d' = filter (\<lambda>i. i \<noteq> ds_key obj) (dataset_base d) @ [ds_key obj]
         \<and> dataset d' = dataset d @ [obj\<lparr>ds_id := ds_key obj\<rparr>]
         \<and> obj = \<lparr>ds_key = ds_key obj, ds_id = uuid,
                  ds_fields = dict_update [(''owner'', VUser user), (''complete'', VBool False)]
                                (dict_del ''uuid'' dd)\<rparr>"
    by (rule main [THEN conjunct2, THEN conjunct1, rule_format])
  show "count_full d (ds_key obj) \<noteq> 0 \<Longrightarrow>
           dataset_base d' = dataset_base d
         \<and> dataset d' =
             map (\<lambda>r. if ds_key r = ds_key obj then obj\<lparr>ds_id := ds_key obj\<rparr> else r) (dataset d)
         \<and> (\<exists>old \<in> set (dataset d). ds_key old = ds_key obj
               \<and> obj = old\<lparr>ds_fields := dict_update (ds_fields old) (dict_del ''uuid'' dd)\<rparr>)"
    by (rule main [THEN conjunct2, THEN conjunct2, rule_format])
qed

lemma identity_branch_wf:
  assumes "identity_branch lib uuid dd user d = Inr (Some obj, d')" and "wf_db d"
  shows "wf_db d'"
    and "ds_key obj \<in> set (dataset_base d')"
    and "ds_key obj \<in> set (map ds_key (dataset d'))"
proof -
  note eff = identity_branch_effect [OF assms]
  have "wf_db d' \<and> ds_key obj \<in> set (dataset_base d')
      \<and> ds_key obj \<in> set (map ds_key (dataset d'))"
  proof (cases "count_full d (ds_key obj) = 0")
    case True
    then have nk: "ds_key obj \<notin> set (map ds_key (dataset d))" by (simp add: count_full_zero)
    from eff(2) [OF True]
    have b: "dataset_base d' = filter (\<lambda>i. i \<noteq> ds_key obj) (dataset_base d) @ [ds_key obj]"
      and "dataset d' = dataset d @ [obj\<lparr>ds_id := ds_key obj\<rparr>]" by blast+
    then have r: "map ds_key (dataset d') = map ds_key (dataset d) @ [ds_key obj]" by simp
    show ?thesis using assms(2) nk unfolding wf_db_def b r by auto
  next
    case False
    then have ink: "ds_key obj \<in> set (map ds_key (dataset d))" by (simp add: count_full_zero)
    from eff(3) [OF False] have b: "dataset_base d' = dataset_base d"
      and "dataset d' =
             map (\<lambda>r. if ds_key r = ds_key obj then obj\<lparr>ds_id := ds_key obj\<rparr> else r) (dataset d)"
      by blast+
    then have r: "map ds_key (dataset d') = map ds_key (dataset d)"
      by (simp add: comp_def cong: map_cong)
    show ?thesis using assms(2) ink unfolding wf_db_def b r by auto
  qed
  then show "wf_db d'" and "ds_key obj \<in> set (dataset_base d')"
    and "ds_key obj \<in> set (map ds_key (dataset d'))" by simp_all
qed

lemma map_replace_append:
  assumes "u \<notin> set (map ds_key rows)" and "ds_key y = u"
  shows "map (\<lambda>r. if ds_key r = u then x else r) (rows @ [y]) = rows @ [x]"
  using assms by (induction rows) auto

lemma map_replace_again:
  assumes "ds_key y = u"
  shows "map (\<lambda>r. if ds_key r = u then x else r) (map (\<lambda>r. if ds_key r = u then y else r) rows)
       = map (\<lambda>r. if ds_key r = u then x else r) rows"
  using assms by (induction rows) auto

lemma parse_sections_base:
  assumes "parse_sections lib p up d = Inr (dd, d3)"
  shows "extends_base d d3"
proof -
  from assms obtain p2 x3 where fl: "read_filelist p2 d = Inr x3"
    and r3: "(case x3 of (p3, db1) \<Rightarrow>
     ebind (attr (p_files p3)) (\<lambda>fs.
     ebind (attr (p_content p3)) (\<lambda>c.
     ebind (parse_validate lib p3 ''content'' c db1) (\<lambda>(dc, p4, db2).
     ebind (attr (p_meta p4)) (\<lambda>m.
     ebind (parse_validate lib p4 ''meta'' m db2) (\<lambda>(dm, p5, db3).
     Inr (dict_update (dict_update [(''size'', VInt (up_size up)), (''content'', VFiles fs)] dc) dm,
          db3))))))) = Inr (dd, d3)"
    unfolding parse_sections_def by (auto simp: ebind_eq_Inr)
  obtain p3 db1 where x3: "x3 = (p3, db1)" by (cases x3)
  from r3 [unfolded x3] obtain fs c x4 where
    vc: "parse_validate lib p3 ''content'' c db1 = Inr x4"
    and r4: "(case x4 of (dc, p4, db2) \<Rightarrow>
     ebind (attr (p_meta p4)) (\<lambda>m.
     ebind (parse_validate lib p4 ''meta'' m db2) (\<lambda>(dm, p5, db3).
     Inr (dict_update (dict_update [(''size'', VInt (up_size up)), (''content'', VFiles fs)] dc) dm,
          db3)))) = Inr (dd, d3)"
    by (auto simp: ebind_eq_Inr)
  obtain dc p4 db2 where x4: "x4 = (dc, p4, db2)" by (cases x4)
  from r4 [unfolded x4] obtain m x5 where
    vm: "parse_validate lib p4 ''meta'' m db2 = Inr x5"
    and r5: "(case x5 of (dm, p5, db3) \<Rightarrow>
     Inr (dict_update (dict_update [(''size'', VInt (up_size up)), (''content'', VFiles fs)] dc) dm,
          db3)) = Inr (dd, d3)"
    by (auto simp: ebind_eq_Inr)
  obtain dm p5 where x5: "x5 = (dm, p5, d3)" using r5 by (cases x5) auto
  show ?thesis
    using read_filelist_base [OF fl [unfolded x3]] parse_validate_base [OF vc [unfolded x4]]
      parse_validate_base [OF vm [unfolded x5]]
    by (blast intro: extends_base_trans)
qed

lemma parse_record:
  assumes "parse lib p up user d = Inr (Some ob, d')"
  obtains dd d3 uuid where "parse_sections lib p up d = Inr (dd, d3)"
    and "map_of dd ''uuid'' = Some (VStr uuid)"
    and "identity_branch lib uuid dd user d3 = Inr (Some ob, d')"
proof -
  from assms have "\<exists>x. parse_sections lib p up d = Inr x \<and>
      (case x of (dd, db3) \<Rightarrow>
         (case map_of dd ''uuid'' of
            None \<Rightarrow> Inl (KeyError ''uuid'')
          | Some (VStr uuid) \<Rightarrow> identity_branch lib uuid dd user db3
          | Some _ \<Rightarrow> Inl attribute_error)) = Inr (Some ob, d')"
    unfolding parse_def ebind_eq_Inr .
  then obtain dd d3 where ps: "parse_sections lib p up d = Inr (dd, d3)"
    and r: "(case map_of dd ''uuid'' of
            None \<Rightarrow> Inl (KeyError ''uuid'')
          | Some (VStr uuid) \<Rightarrow> identity_branch lib uuid dd user d3
          | Some _ \<Rightarrow> Inl attribute_error) = Inr (Some ob, d')"
    by auto
  show ?thesis
  proof (cases "map_of dd ''uuid''")
    case None
    with r show ?thesis by simp
  next
    case (Some v)
    with r ps show ?thesis by (cases v) (simp_all add: that)
  qed
qed

lemma select_and_parse_record:
  assumes "select_and_parse lib up owner d = Inr (Some (ob, ext), d')"
  obtains p where "new_parser ZipContainerParser = Inr p"
    and "parse lib p up owner d = Inr (Some ob, d')" and "ext = ''.zdc''"
proof -
  have "new_parser Hdf5ContainerParser = Inl (TypeError ''Can't instantiate abstract class'')"
    by (simp add: new_parser_def abstract_methods_def)
  with assms show ?thesis
    by (auto simp: select_and_parse_def ebind_eq_Inr intro: that split: if_splits option.splits)
qed

text \<open>
  Claim C2. Take a catalog whose keys are unique and in which every full record has its
  parent row, and an ingestion that succeeds and returns the record \<open>obj\<close>. Afterwards
  the catalog is again of that kind, and the identifier of \<open>obj\<close>, which is the uuid
  of the container, has exactly one row in \<open>DataSetBase\<close> and exactly one in
  \<open>DataSet\<close>. With \<open>d\<close> the validated attributes, \<open>db3\<close> the catalog after
  extraction and validation (the catalog before, with at most some placeholders added),
  and \<open>ob\<close>, \<open>dbs\<close> the record and the catalog returned by \<open>parse\<close>:

  \<^item> when the identifier had no full record, be it unknown or a placeholder, \<open>parse\<close>
    removes its row in \<open>DataSetBase\<close> from where it was and puts a new one at the
    end, and appends to \<open>DataSet\<close> a new record made of the owner,
    \<open>complete = False\<close> and the validated attributes without the uuid;

  \<^item> when the identifier had a full record, \<open>parse\<close> adds and removes no row in
    either table: the one row of \<open>DataSet\<close> with that identifier is replaced, where it
    stands, by the old record updated with the validated attributes.

  The orchestrator then saves that record with its storage path, in the same row.
\<close>

theorem one_record_per_identifier:
  assumes "wf_db (w_db w)"
    and "parse_container_file lib up owner w = (Inr (Some obj), w')"
  shows "wf_db (w_db w')
       \<and> count_base (w_db w') (ds_key obj) = 1
       \<and> count_full (w_db w') (ds_key obj) = 1
       \<and> (\<exists>p d db3 uuid ob dbs.
            new_parser ZipContainerParser = Inr p
          \<and> parse_sections lib p up (w_db w) = Inr (d, db3)
          \<and> extends_base (w_db w) db3
          \<and> map_of d ''uuid'' = Some (VStr uuid)
          \<and> to_uuid lib (JStr uuid) = Some (ds_key obj)
          \<and> parse lib p up owner (w_db w) = Inr (Some ob, dbs)
          \<and> (count_full (w_db w) (ds_key obj) = 0 \<longrightarrow>
               dataset_base dbs
                 = filter (\<lambda>i. i \<noteq> ds_key obj) (dataset_base db3) @ [ds_key obj]
             \<and> dataset dbs = dataset (w_db w) @ [ob\<lparr>ds_id := ds_key obj\<rparr>]
             \<and> ob = \<lparr>ds_key = ds_key obj, ds_id = uuid,
                      ds_fields = dict_update [(''owner'', VUser owner), (''complete'', VBool False)]
                                    (dict_del ''uuid'' d)\<rparr>
             \<and> dataset (w_db w') = dataset (w_db w) @ [obj\<lparr>ds_id := ds_key obj\<rparr>])
          \<and> (count_full (w_db w) (ds_key obj) \<noteq> 0 \<longrightarrow>
               dataset_base dbs = dataset_base db3
             \<and> dataset dbs
                 = map (\<lambda>r. if ds_key r = ds_key obj then ob\<lparr>ds_id := ds_key obj\<rparr> else r)
                     (dataset (w_db w))
             \<and> (\<exists>old \<in> set (dataset (w_db w)). ds_key old = ds_key obj
                  \<and> ob = old\<lparr>ds_fields := dict_update (ds_fields old) (dict_del ''uuid'' d)\<rparr>)
             \<and> dataset (w_db w')
                 = map (\<lambda>r. if ds_key r = ds_key obj then obj\<lparr>ds_id := ds_key obj\<rparr> else r)
                     (dataset (w_db w)))
          \<and> dataset_base (w_db w') = dataset_base dbs
          \<and> obj = ob\<lparr>ds_fields := dict_set ''server_path''
                     (VStr (abspath lib (media_root lib @ ''/'' @ ds_id ob @ ''.zdc'')))
                     (ds_fields ob)\<rparr>)"
proof -
  from assms(2) have body: "ingest_body lib up owner w = (Inr (Some obj), w')"
    by (auto simp: parse_container_file_def split: prod.splits sum.splits)
  then obtain ob ext dbs where
    sp: "select_and_parse lib up owner (w_db w) = Inr (Some (ob, ext), dbs)"
    and ob: "obj = ob\<lparr>ds_fields := dict_set ''server_path''
                 (VStr (abspath lib (media_root lib @ ''/'' @ ds_id ob @ ext))) (ds_fields ob)\<rparr>"
    and sv: "save_dataset lib obj dbs = Inr (w_db w')"
    by (auto simp: ingest_body_def Let_def split: sum.splits prod.splits option.splits)
  from sp obtain p where np: "new_parser ZipContainerParser = Inr p"
    and pr: "parse lib p up owner (w_db w) = Inr (Some ob, dbs)" and ext: "ext = ''.zdc''"
    by (rule select_and_parse_record)
  from pr obtain d db3 uuid where ps: "parse_sections lib p up (w_db w) = Inr (d, db3)"
    and uu: "map_of d ''uuid'' = Some (VStr uuid)"
    and ib: "identity_branch lib uuid d owner db3 = Inr (Some ob, dbs)"
    by (rule parse_record)
  have e: "extends_base (w_db w) db3" using ps by (rule parse_sections_base)
  then have same: "dataset db3 = dataset (w_db w)" by (simp add: extends_base_def)
  have wf3: "wf_db db3" using e assms(1) by (rule extends_base_wf)
  have k: "ds_key ob = ds_key obj" by (subst ob) simp
  have ob': "obj = ob\<lparr>ds_fields := dict_set ''server_path''
                     (VStr (abspath lib (media_root lib @ ''/'' @ ds_id ob @ ''.zdc'')))
                     (ds_fields ob)\<rparr>"
    using ob ext by simp
  note iw = identity_branch_wf [OF ib wf3, unfolded k]
  note eff = identity_branch_effect [OF ib wf3, unfolded k same]
  have wf': "wf_db (w_db w')" using sv iw(1) by (rule save_dataset_wf)
  have cb: "count_base (w_db w') (ds_key obj) = 1"
    using wf' save_dataset_present(1) [OF sv] by (rule wf_count_base)
  have cf: "count_full (w_db w') (ds_key obj) = 1"
    using wf' save_dataset_present(2) [OF sv] by (rule wf_count_full)
  have b': "dataset_base (w_db w') = dataset_base dbs"
    using save_dataset_result(1) [OF sv] iw(2) by simp
  have r': "dataset (w_db w')
      = map (\<lambda>r. if ds_key r = ds_key obj then obj\<lparr>ds_id := ds_key obj\<rparr> else r) (dataset dbs)"
    using save_dataset_result(2) [OF sv] iw(3) by simp
  have N: "count_full (w_db w) (ds_key obj) = 0 \<longrightarrow>
               dataset_base dbs
                 = filter (\<lambda>i. i \<noteq> ds_key obj) (dataset_base db3) @ [ds_key obj]
             \<and> dataset dbs = dataset (w_db w) @ [ob\<lparr>ds_id := ds_key obj\<rparr>]
             \<and> ob = \<lparr>ds_key = ds_key obj, ds_id = uuid,
                      ds_fields = dict_update [(''owner'', VUser owner), (''complete'', VBool False)]
                                    (dict_del ''uuid'' d)\<rparr>
             \<and> dataset (w_db w') = dataset (w_db w) @ [obj\<lparr>ds_id := ds_key obj\<rparr>]"
  proof
    assume z: "count_full (w_db w) (ds_key obj) = 0"
    then have z3: "count_full db3 (ds_key obj) = 0" by (simp add: count_full_def same)
    from z have nk: "ds_key obj \<notin> set (map ds_key (dataset (w_db w)))"
      by (simp add: count_full_zero)
    note c = eff(2) [OF z3]
    have 2: "dataset dbs = dataset (w_db w) @ [ob\<lparr>ds_id := ds_key obj\<rparr>]"
      by (rule c [THEN conjunct2, THEN conjunct1])
    have "dataset (w_db w') = dataset (w_db w) @ [obj\<lparr>ds_id := ds_key obj\<rparr>]"
      unfolding r' 2 using nk by (intro map_replace_append) (simp_all add: k)
    with c show "dataset_base dbs
                 = filter (\<lambda>i. i \<noteq> ds_key obj) (dataset_base db3) @ [ds_key obj]
             \<and> dataset dbs = dataset (w_db w) @ [ob\<lparr>ds_id := ds_key obj\<rparr>]
             \<and> ob = \<lparr>ds_key = ds_key obj, ds_id = uuid,
                      ds_fields = dict_update [(''owner'', VUser owner), (''complete'', VBool False)]
                                    (dict_del ''uuid'' d)\<rparr>
             \<and> dataset (w_db w') = dataset (w_db w) @ [obj\<lparr>ds_id := ds_key obj\<rparr>]"
      by (intro conjI) (erule conjunct1, erule conjunct2 [THEN conjunct1],
          erule conjunct2 [THEN conjunct2], assumption)
  qed
  have U: "count_full (w_db w) (ds_key obj) \<noteq> 0 \<longrightarrow>
               dataset_base dbs = dataset_base db3
             \<and> dataset dbs
                 = map (\<lambda>r. if ds_key r = ds_key obj then ob\<lparr>ds_id := ds_key obj\<rparr> else r)
                     (dataset (w_db w))
             \<and> (\<exists>old \<in> set (dataset (w_db w)). ds_key old = ds_key obj
                  \<and> ob = old\<lparr>ds_fields := dict_update (ds_fields old) (dict_del ''uuid'' d)\<rparr>)
             \<and> dataset (w_db w')
                 = map (\<lambda>r. if ds_key r = ds_key obj then obj\<lparr>ds_id := ds_key obj\<rparr> else r)
                     (dataset (w_db w))"
  proof
    assume nz: "count_full (w_db w) (ds_key obj) \<noteq> 0"
    then have nz3: "count_full db3 (ds_key obj) \<noteq> 0" by (simp add: count_full_def same)
    note c = eff(3) [OF nz3]
    have 2: "dataset dbs
          = map (\<lambda>r. if ds_key r = ds_key obj then ob\<lparr>ds_id := ds_key obj\<rparr> else r)
              (dataset (w_db w))"
      by (rule c [THEN conjunct2, THEN conjunct1])
    have "dataset (w_db w')
        = map (\<lambda>r. if ds_key r = ds_key obj then obj\<lparr>ds_id := ds_key obj\<rparr> else r)
            (dataset (w_db w))"
      unfolding r' 2 by (rule map_replace_again) (simp add: k)
    with c show "dataset_base dbs = dataset_base db3
             \<and> dataset dbs
                 = map (\<lambda>r. if ds_key r = ds_key obj then ob\<lparr>ds_id := ds_key obj\<rparr> else r)
                     (dataset (w_db w))
             \<and> (\<exists>old \<in> set (dataset (w_db w)). ds_key old = ds_key obj
                  \<and> ob = old\<lparr>ds_fields := dict_update (ds_fields old) (dict_del ''uuid'' d)\<rparr>)
             \<and> dataset (w_db w')
                 = map (\<lambda>r. if ds_key r = ds_key obj then obj\<lparr>ds_id := ds_key obj\<rparr> else r)
                     (dataset (w_db w))"
      by (intro conjI) (erule conjunct1, erule conjunct2 [THEN conjunct1],
          erule conjunct2 [THEN conjunct2], assumption)
  qed
  show ?thesis
    apply (intro conjI)
       apply (rule wf')
      apply (rule cb)
     apply (rule cf)
    apply (rule exI [of _ p])
    apply (rule exI [of _ d])
    apply (rule exI [of _ db3])
    apply (rule exI [of _ uuid])
    apply (rule exI [of _ ob])
    apply (rule exI [of _ dbs])
    apply (intro conjI)
             apply (rule np)
            apply (rule ps)
           apply (rule e)
          apply (rule uu)
         apply (rule eff(1))
        apply (rule pr)
       apply (rule N)
      apply (rule U)
     apply (rule b')
    apply (rule ob')
    done
qed

text \<open>
  Claim C8, as amended. Take a zip container that passes extraction and validation
  with the attributes \<open>d\<close>, leaving the catalog \<open>db3\<close>, and whose validated uuid has
  the reserved prefix. The ingestion then returns the ``no record'' signal, writes no
  file to the storage and leaves the table \<open>DataSet\<close> as it was. The catalog it
  leaves is \<open>db3\<close>: the rows written while the archive was read and the sections
  were validated are kept.
\<close>

theorem test_identifier_leaves_no_dataset:
  assumes "up_mime up = ''application/zip''"
    and "new_parser ZipContainerParser = Inr p"
    and "parse_sections lib p up (w_db w) = Inr (d, db3)"
    and "map_of d ''uuid'' = Some (VStr uuid)"
    and "starts_with uuid test_prefix"
  shows "parse_container_file lib up owner w = (Inr None, w\<lparr>w_db := db3\<rparr>)
       \<and> w_storage (snd (parse_container_file lib up owner w)) = w_storage w
       \<and> dataset (w_db (snd (parse_container_file lib up owner w))) = dataset (w_db w)"
proof -
  have "identity_branch lib uuid d owner db3 = Inr (None, db3)"
    using assms(5) by (simp add: identity_branch_def parse_test_data_def)
  then have "parse lib p up owner (w_db w) = Inr (None, db3)"
    using assms(3,4) by (simp add: parse_def)
  then have "select_and_parse lib up owner (w_db w) = Inr (None, db3)"
    using assms(1,2) by (simp add: select_and_parse_def)
  then have res: "parse_container_file lib up owner w = (Inr None, w\<lparr>w_db := db3\<rparr>)"
    by (simp add: parse_container_file_def ingest_body_def)
  have "dataset db3 = dataset (w_db w)"
    using parse_sections_base [OF assms(3)] by (simp add: extends_base_def)
  with res show ?thesis by simp
qed

text \<open>
  A test container that names another dataset under \<open>replaces\<close>, ingested into an
  empty catalog: no record is returned, and the catalog now holds a placeholder for the
  replaced identifier and a row of \<open>File\<close> for each member of the archive.
\<close>

theorem test_identifier_leaves_rows:
  "fst (parse_container_file ref_lib test_upload ''alice'' empty_world) = Inr None
   \<and> dataset_base (w_db (snd (parse_container_file ref_lib test_upload ''alice'' empty_world)))
       = [uuid_b]
   \<and> map f_name (files (w_db (snd (parse_container_file ref_lib test_upload ''alice'' empty_world))))
       = [''content.json'', ''meta.json'', ''data.bin'']
   \<and> dataset_base (w_db empty_world) = [] \<and> files (w_db empty_world) = []"
  by code_simp

theorem test_identifier_leaves_no_dataset_witness:
  "fst (parse_container_file ref_lib test_upload ''alice'' empty_world) = Inr None
   \<and> w_storage (snd (parse_container_file ref_lib test_upload ''alice'' empty_world)) = []
   \<and> dataset (w_db (snd (parse_container_file ref_lib test_upload ''alice'' empty_world))) = []"
proof -
  let ?p = "\<lparr>p_class = ZipContainerParser, p_filename = None, model_version = JNull,
             p_content = None, p_meta = None, p_files = None\<rparr>"
  have 1: "up_mime test_upload = ''application/zip''"
    by (simp add: test_upload_def example_upload_def)
  have 2: "new_parser ZipContainerParser = Inr ?p"
    by (simp add: new_parser_def abstract_methods_def)
  have "(case parse_sections ref_lib ?p test_upload (w_db empty_world) of
           Inl err \<Rightarrow> False
         | Inr (d, db3) \<Rightarrow> map_of d ''uuid'' = Some (VStr uuid_test))"
    by code_simp
  then obtain d db3 where 3: "parse_sections ref_lib ?p test_upload (w_db empty_world) = Inr (d, db3)"
    and 4: "map_of d ''uuid'' = Some (VStr uuid_test)"
    by (auto split: sum.splits)
  have 5: "starts_with uuid_test test_prefix"
    by (simp add: starts_with_def uuid_test_def test_prefix_def)
  note r = test_identifier_leaves_no_dataset [OF 1 2 3 4 5, of "''alice''"]
  have a: "fst (parse_container_file ref_lib test_upload ''alice'' empty_world) = Inr None"
    by (simp add: r [THEN conjunct1])
  have b: "w_storage (snd (parse_container_file ref_lib test_upload ''alice'' empty_world)) = []"
    using r [THEN conjunct2, THEN conjunct1] by (simp add: empty_world_def)
  have c: "dataset (w_db (snd (parse_container_file ref_lib test_upload ''alice'' empty_world))) = []"
    using r [THEN conjunct2, THEN conjunct2] by (simp add: empty_world_def empty_db_def)
  from a b c show ?thesis by (intro conjI)
qed

theorem one_record_per_identifier_witness:
  "is_placeholder (w_db placeholder_world) uuid_a
   \<and> dataset_base (w_db placeholder_world) = [uuid_a, uuid_b]
   \<and> dataset_base (w_db (snd (parse_container_file ref_lib
        (example_upload (example_content uuid_a ''0.5.1'') example_meta) ''alice'' placeholder_world)))
       = [uuid_b, uuid_a]
   \<and> count_base (w_db (snd (parse_container_file ref_lib
        (example_upload (example_content uuid_a ''0.5.1'') example_meta) ''alice'' placeholder_world))) uuid_a = 1
   \<and> count_full (w_db (snd (parse_container_file ref_lib
        (example_upload (example_content uuid_a ''0.5.1'') example_meta) ''alice'' placeholder_world))) uuid_a = 1"
proof -
  let ?res = "parse_container_file ref_lib
        (example_upload (example_content uuid_a ''0.5.1'') example_meta) ''alice'' placeholder_world"
  have "(case fst ?res of
           Inr (Some obj) \<Rightarrow> ds_key obj = uuid_a
              \<and> dataset_base (w_db (snd ?res)) = [uuid_b, uuid_a]
         | _ \<Rightarrow> False)"
    by code_simp
  then obtain obj where obj: "fst ?res = Inr (Some obj)" "ds_key obj = uuid_a"
    and after: "dataset_base (w_db (snd ?res)) = [uuid_b, uuid_a]"
    by (auto split: sum.splits option.splits)
  then have res: "?res = (Inr (Some obj), snd ?res)"
    by (metis prod.collapse)
  have wf: "wf_db (w_db placeholder_world)"
    by (simp add: wf_db_def placeholder_world_def empty_db_def uuid_a_def uuid_b_def)
  have ph: "is_placeholder (w_db placeholder_world) uuid_a"
    by (simp add: is_placeholder_def count_base_def count_full_def placeholder_world_def
        empty_db_def uuid_a_def uuid_b_def)
  have before: "dataset_base (w_db placeholder_world) = [uuid_a, uuid_b]"
    by (simp add: placeholder_world_def empty_db_def)
  note r = one_record_per_identifier [OF wf res, unfolded obj(2)]
  have cb: "count_base (w_db (snd ?res)) uuid_a = 1" by (rule r [THEN conjunct2, THEN conjunct1])
  have cf: "count_full (w_db (snd ?res)) uuid_a = 1"
    by (rule r [THEN conjunct2, THEN conjunct2, THEN conjunct1])
  from ph before after cb cf show ?thesis by (intro conjI)
qed

end

